theory Spec2Isabelle
  imports Main "HOL-Library.Char_ord" "HOL-Library.List_Lexorder"
begin

section \<open>Strings and numbers of the JavaScript runtime\<close>

text \<open>
  A JavaScript string is modelled as a \<open>string\<close>: a list of code units, restricted to the
  one-byte range. \<open>length\<close> is the source's \<open>.length\<close>. Numbers that the source uses
  as counts, lengths and years are integers.
\<close>

definition code_of :: "char \<Rightarrow> nat" where
  "code_of c = of_char c"

definition in_range :: "char \<Rightarrow> char \<Rightarrow> char \<Rightarrow> bool" where
  "in_range a b c = (code_of a \<le> code_of c \<and> code_of c \<le> code_of b)"

definition is_digit :: "char \<Rightarrow> bool" where
  "is_digit c = in_range CHR ''0'' CHR ''9'' c"

definition is_upper :: "char \<Rightarrow> bool" where
  "is_upper c = (in_range CHR ''A'' CHR ''Z'' c
     \<or> (192 \<le> code_of c \<and> code_of c \<le> 222 \<and> code_of c \<noteq> 215))"

definition is_lower :: "char \<Rightarrow> bool" where
  "is_lower c = (in_range CHR ''a'' CHR ''z'' c
     \<or> (224 \<le> code_of c \<and> code_of c \<le> 254 \<and> code_of c \<noteq> 247))"

text \<open>\<open>\w\<close> of a regular expression: \<open>[A-Za-z0-9_]\<close>.\<close>

definition is_word :: "char \<Rightarrow> bool" where
  "is_word c = (in_range CHR ''a'' CHR ''z'' c \<or> in_range CHR ''A'' CHR ''Z'' c
     \<or> is_digit c \<or> c = CHR ''_'')"

text \<open>\<open>\s\<close> of a regular expression, on one-byte code units.\<close>

definition is_space :: "char \<Rightarrow> bool" where
  "is_space c = (code_of c \<in> {9, 10, 11, 12, 13, 32, 160})"

definition lower_char :: "char \<Rightarrow> char" where
  "lower_char c = (if is_upper c then char_of (code_of c + 32) else c)"

definition upper_char :: "char \<Rightarrow> char" where
  "upper_char c = (if is_lower c then char_of (code_of c - 32) else c)"

text \<open>\<open>String.prototype.toLowerCase\<close>.\<close>

definition toLowerCase :: "string \<Rightarrow> string" where
  "toLowerCase s = map lower_char s"

fun starts_with :: "string \<Rightarrow> string \<Rightarrow> bool" where
  "starts_with s [] = True"
| "starts_with [] (p # ps) = False"
| "starts_with (c # cs) (p # ps) = (c = p \<and> starts_with cs ps)"

text \<open>\<open>String.prototype.includes\<close>: \<open>str_includes s p\<close> is \<open>s.includes(p)\<close>.\<close>

fun str_includes :: "string \<Rightarrow> string \<Rightarrow> bool" where
  "str_includes [] p = (p = [])"
| "str_includes (c # cs) p = (starts_with (c # cs) p \<or> str_includes cs p)"

definition digit_val :: "char \<Rightarrow> nat" where
  "digit_val c = code_of c - 48"

text \<open>The value of a string of decimal digits, as \<open>parseInt(s, 10)\<close> reads it.\<close>

definition digits_val :: "string \<Rightarrow> int" where
  "digits_val s = foldl (\<lambda>n c. 10 * n + int (digit_val c)) 0 s"

text \<open>
  \<open>parseInt(s, 10)\<close>: leading white space is skipped, a sign is read, then the longest
  run of digits; \<open>None\<close> is \<open>NaN\<close>.
\<close>

definition parseInt :: "string \<Rightarrow> int option" where
  "parseInt s =
     (let t = dropWhile is_space s;
          neg = (t \<noteq> [] \<and> hd t = CHR ''-'');
          u = (if t \<noteq> [] \<and> (hd t = CHR ''-'' \<or> hd t = CHR ''+'') then tl t else t);
          ds = takeWhile is_digit u
      in if ds = [] then None
         else Some (if neg then - digits_val ds else digits_val ds))"

fun digits_of :: "nat \<Rightarrow> nat \<Rightarrow> string" where
  "digits_of 0 n = []"
| "digits_of (Suc k) n =
     (if n < 10 then [char_of (48 + n)]
      else digits_of k (n div 10) @ [char_of (48 + n mod 10)])"

text \<open>\<open>String(n)\<close> of a natural number and of an integer (decimal, no exponent).\<close>

definition show_nat :: "nat \<Rightarrow> string" where
  "show_nat n = digits_of (Suc n) n"

definition show_int :: "int \<Rightarrow> string" where
  "show_int i = (if i < 0 then CHR ''-'' # show_nat (nat (- i)) else show_nat (nat i))"

text \<open>Insertion order of a JavaScript \<open>Set\<close>: the first occurrence of each element.\<close>

definition set_order :: "'a list \<Rightarrow> 'a list" where
  "set_order xs = foldl (\<lambda>acc x. if x \<in> set acc then acc else acc @ [x]) [] xs"

section \<open>Regular expressions\<close>

text \<open>
  The regular expressions of the source use literals, character classes, sequence,
  alternation, groups, the assertions \<open>\b\<close> and \<open>^\<close>, and greedy quantifiers over a
  single character class. \<open>run\<close> lists the states a pattern can end in, in the order the
  backtracking matcher tries them; the head of the list is the match.
\<close>

datatype citem = CChar char | CRange char char | CDigit | CWord | CSpace

datatype rx =
    Str string
  | Cls "citem list"
  | Cat "rx list"
  | Alt "rx list"
  | Rep nat "nat option" "citem list"
  | Grp nat rx
  | WordB
  | Bol

text \<open>A matcher state: the character before the position, the rest, the captures.\<close>

type_synonym mstate = "char option \<times> string \<times> (nat \<times> string) list"

fun citem_ok :: "citem \<Rightarrow> char \<Rightarrow> bool" where
  "citem_ok (CChar a) c = (a = c)"
| "citem_ok (CRange a b) c = in_range a b c"
| "citem_ok CDigit c = is_digit c"
| "citem_ok CWord c = is_word c"
| "citem_ok CSpace c = is_space c"

text \<open>With the flag \<open>i\<close> a character matches when one of its case variants does.\<close>

definition cls_ok :: "bool \<Rightarrow> citem list \<Rightarrow> char \<Rightarrow> bool" where
  "cls_ok ci items c =
     (\<exists>it \<in> set items. citem_ok it c
        \<or> (ci \<and> (citem_ok it (lower_char c) \<or> citem_ok it (upper_char c))))"

definition chr_eq :: "bool \<Rightarrow> char \<Rightarrow> char \<Rightarrow> bool" where
  "chr_eq ci a c = (if ci then upper_char a = upper_char c else a = c)"

fun lit_ok :: "bool \<Rightarrow> string \<Rightarrow> string \<Rightarrow> bool" where
  "lit_ok ci [] s = True"
| "lit_ok ci (p # ps) [] = False"
| "lit_ok ci (p # ps) (c # cs) = (chr_eq ci p c \<and> lit_ok ci ps cs)"

definition advance :: "nat \<Rightarrow> mstate \<Rightarrow> mstate" where
  "advance k st =
     (case st of (prev, rest, caps) \<Rightarrow>
        ((case rev (take k rest) of [] \<Rightarrow> prev | c # cs \<Rightarrow> Some c), drop k rest, caps))"

definition at_boundary :: "mstate \<Rightarrow> bool" where
  "at_boundary st =
     (case st of (prev, rest, caps) \<Rightarrow>
        (case prev of None \<Rightarrow> False | Some c \<Rightarrow> is_word c)
          \<noteq> (case rest of [] \<Rightarrow> False | c # cs \<Rightarrow> is_word c))"

definition set_cap :: "nat \<Rightarrow> mstate \<Rightarrow> mstate \<Rightarrow> mstate" where
  "set_cap i st0 st =
     (case st0 of (prev0, rest0, caps0) \<Rightarrow>
      case st of (prev, rest, caps) \<Rightarrow>
        (prev, rest, (i, take (length rest0 - length rest) rest0) # caps))"

fun run :: "bool \<Rightarrow> rx \<Rightarrow> mstate \<Rightarrow> mstate list"
  and run_cat :: "bool \<Rightarrow> rx list \<Rightarrow> mstate \<Rightarrow> mstate list"
  and run_alt :: "bool \<Rightarrow> rx list \<Rightarrow> mstate \<Rightarrow> mstate list" where
  "run ci (Str p) st =
     (if lit_ok ci p (fst (snd st)) then [advance (length p) st] else [])"
| "run ci (Cls items) st =
     (case fst (snd st) of
        [] \<Rightarrow> []
      | c # cs \<Rightarrow> if cls_ok ci items c then [advance 1 st] else [])"
| "run ci (Cat rs) st = run_cat ci rs st"
| "run ci (Alt rs) st = run_alt ci rs st"
| "run ci (Rep lo hi items) st =
     (let avail = length (takeWhile (cls_ok ci items) (fst (snd st)));
          most = (case hi of None \<Rightarrow> avail | Some h \<Rightarrow> min h avail)
      in map (\<lambda>k. advance k st) (rev [lo ..< Suc most]))"
| "run ci (Grp i r) st = map (set_cap i st) (run ci r st)"
| "run ci WordB st = (if at_boundary st then [st] else [])"
| "run ci Bol st = (if fst st = None then [st] else [])"
| "run_cat ci [] st = [st]"
| "run_cat ci (r # rs) st = concat (map (run_cat ci rs) (run ci r st))"
| "run_alt ci [] st = []"
| "run_alt ci (r # rs) st = run ci r st @ run_alt ci rs st"

text \<open>
  A match as \<open>exec\<close> returns it: the matched text (\<open>match[0]\<close>) and the groups.
\<close>

type_synonym rmatch = "string \<times> (nat \<times> string) list"

definition group :: "rmatch \<Rightarrow> nat \<Rightarrow> string" where
  "group m i = (case map_of (snd m) i of Some s \<Rightarrow> s | None \<Rightarrow> [])"

text \<open>
  The loop \<open>while ((match = re.exec(s)) !== null)\<close> of a pattern with the flag \<open>g\<close>:
  every match from left to right, each search starting where the last match ended.
  \<open>skip\<close> counts the characters of the last match still to pass. (No pattern of the
  source matches the empty string; after an empty match the model moves on by one
  character.)
\<close>

fun scan :: "bool \<Rightarrow> rx \<Rightarrow> nat \<Rightarrow> char option \<Rightarrow> string \<Rightarrow> rmatch list" where
  "scan ci r skip prev [] =
     (if skip = 0 then
        (case run ci r (prev, [], []) of [] \<Rightarrow> [] | st # sts \<Rightarrow> [([], snd (snd st))])
      else [])"
| "scan ci r skip prev (c # cs) =
     (if 0 < skip then scan ci r (skip - 1) (Some c) cs
      else (case run ci r (prev, c # cs, []) of
              [] \<Rightarrow> scan ci r 0 (Some c) cs
            | st # sts \<Rightarrow>
                (let n = length (c # cs) - length (fst (snd st))
                 in (take n (c # cs), snd (snd st)) # scan ci r (n - 1) (Some c) cs)))"

definition exec_all :: "bool \<Rightarrow> rx \<Rightarrow> string \<Rightarrow> rmatch list" where
  "exec_all ci r s = scan ci r 0 None s"

text \<open>\<open>re.test(s)\<close> of a pattern without the flag \<open>g\<close>.\<close>

definition rx_test :: "bool \<Rightarrow> rx \<Rightarrow> string \<Rightarrow> bool" where
  "rx_test ci r s = (exec_all ci r s \<noteq> [])"

section \<open>JSON values and the runtime's built-ins\<close>

text \<open>
  The data the compactor works on: what \<open>JSON.parse\<close> returns. An object is the list
  of its own properties in enumeration order. Numbers are integers (no pass of the
  compactor computes with a number).
\<close>

datatype json =
    JNull
  | JBool bool
  | JNum int
  | JStr string
  | JArr "json list"
  | JObj "(string \<times> json) list"

text \<open>A \<open>Date\<close>: its time value in milliseconds, or an invalid date (time value \<open>NaN\<close>).\<close>

datatype jsdate = InvalidDate | Time int

text \<open>
  The built-ins of the JavaScript runtime that the source calls and that are not code of
  the repository. They are parameters of the model: a theorem stated for every runtime
  holds whatever these functions return.
  \<^item> \<open>now\<close>: the time value \<open>new Date()\<close> reads (one instant for one call of the analyzer
    or the compactor);
  \<^item> \<open>date_parse s\<close>: \<open>new Date(s)\<close>;
  \<^item> \<open>year_of\<close>, \<open>month_of\<close>, \<open>day_of\<close>: \<open>getFullYear\<close>, \<open>getMonth\<close>, \<open>getDate\<close> of a
    valid date, in the local time zone;
  \<^item> \<open>with_year t y\<close>, \<open>with_month t m\<close>, \<open>with_day t d\<close>: the date after
    \<open>setFullYear(y)\<close>, \<open>setMonth(m)\<close>, \<open>setDate(d)\<close> on a copy of the valid date \<open>t\<close>;
  \<^item> \<open>local_date y m d\<close>: \<open>new Date(y, m, d)\<close>;
  \<^item> \<open>url_origin s\<close>: \<open>new URL(s).origin\<close>, \<open>None\<close> when the constructor throws;
  \<^item> \<open>json_parse s\<close>: \<open>JSON.parse(s)\<close>, \<open>None\<close> when it throws.
\<close>

record js_runtime =
  now :: int
  date_parse :: "string \<Rightarrow> jsdate"
  year_of :: "int \<Rightarrow> int"
  month_of :: "int \<Rightarrow> int"
  day_of :: "int \<Rightarrow> int"
  with_year :: "int \<Rightarrow> int \<Rightarrow> jsdate"
  with_month :: "int \<Rightarrow> int \<Rightarrow> jsdate"
  with_day :: "int \<Rightarrow> int \<Rightarrow> jsdate"
  local_date :: "int \<Rightarrow> int \<Rightarrow> int \<Rightarrow> jsdate"
  url_origin :: "string \<Rightarrow> string option"
  json_parse :: "string \<Rightarrow> json option"

text \<open>\<open>d.getFullYear()\<close>: \<open>None\<close> is \<open>NaN\<close>.\<close>

definition getFullYear :: "js_runtime \<Rightarrow> jsdate \<Rightarrow> int option" where
  "getFullYear rt d = (case d of InvalidDate \<Rightarrow> None | Time t \<Rightarrow> Some (year_of rt t))"

section \<open>Query analyzer\<close>

record date_range =
  range_start :: jsdate
  range_end :: jsdate

record QueryContext =
  years :: "int list"
  dateRanges :: "date_range list"
  timePeriods :: "string list"
  tickers :: "string list"
  requiresFullData :: bool
  calculationKeywords :: "string list"

definition CALCULATION_KEYWORDS :: "string list" where
  "CALCULATION_KEYWORDS =
    [''return'', ''returns'', ''cagr'', ''annualized'', ''growth rate'',
     ''volatility'', ''standard deviation'', ''sharpe'', ''beta'', ''alpha'',
     ''correlation'', ''moving average'', ''ma'', ''sma'', ''ema'',
     ''trend'', ''regression'', ''performance'', ''compare'', ''comparison'',
     ''drawdown'', ''max drawdown'', ''high'', ''low'', ''range'',
     ''ytd'', ''mtd'', ''qtd'', ''year to date'', ''month to date'',
     ''total return'', ''price return'', ''cumulative'']"

definition TICKER_PATTERN :: rx where
  "TICKER_PATTERN = Cat [WordB, Grp 1 (Rep 1 (Some 5) [CRange CHR ''A'' CHR ''Z'']), WordB]"

definition COMMON_TICKERS :: "string list" where
  "COMMON_TICKERS =
    [''AAPL'', ''MSFT'', ''GOOGL'', ''GOOG'', ''AMZN'', ''META'', ''NVDA'', ''TSLA'',
     ''AMD'', ''INTC'', ''IBM'', ''ORCL'', ''CRM'', ''ADBE'', ''NFLX'', ''PYPL'',
     ''SPY'', ''QQQ'', ''IWM'', ''DIA'', ''VTI'', ''VOO'', ''ARKK'',
     ''JPM'', ''BAC'', ''WFC'', ''GS'', ''MS'', ''C'', ''V'', ''MA'', ''AXP'',
     ''JNJ'', ''PFE'', ''UNH'', ''MRK'', ''ABBV'', ''LLY'', ''BMY'',
     ''XOM'', ''CVX'', ''COP'', ''SLB'', ''OXY'',
     ''DIS'', ''CMCSA'', ''T'', ''VZ'', ''TMUS'',
     ''WMT'', ''COST'', ''TGT'', ''HD'', ''LOW'', ''NKE'', ''SBUX'',
     ''BA'', ''CAT'', ''GE'', ''HON'', ''MMM'', ''UPS'', ''FDX'',
     ''BTC'', ''ETH'', ''BNB'', ''XRP'', ''SOL'', ''ADA'', ''DOGE'']"

definition TICKER_EXCLUSIONS :: "string list" where
  "TICKER_EXCLUSIONS =
    [''THE'', ''AND'', ''FOR'', ''NOT'', ''ARE'', ''BUT'', ''HAS'', ''HAD'', ''WAS'', ''CAN'',
     ''ALL'', ''HER'', ''HIS'', ''ITS'', ''OUR'', ''WHO'', ''HOW'', ''WHY'', ''DID'', ''GET'',
     ''NOW'', ''NEW'', ''OLD'', ''TOP'', ''LOW'', ''HIGH'', ''USD'', ''EUR'', ''GBP'', ''JPY'',
     ''YTD'', ''MTD'', ''QTD'', ''TTM'', ''MOM'', ''YOY'', ''QOQ'', ''API'', ''IPO'', ''CEO'',
     ''CFO'', ''COO'', ''CTO'', ''GDP'', ''CPI'', ''PPI'', ''PMI'', ''PCE'', ''FED'', ''SEC'',
     ''FCF'', ''EPS'', ''ROE'', ''ROA'', ''ROI'', ''PER'', ''DAY'', ''FY23'', ''FY24'', ''FY25'']"

text \<open>\<open>\d{n}\<close>, \<open>\d{m,n}\<close>, \<open>\d+\<close>, \<open>\s+\<close> and an optional character.\<close>

definition digits :: "nat \<Rightarrow> nat \<Rightarrow> rx" where
  "digits lo hi = Rep lo (Some hi) [CDigit]"

definition digits1 :: rx where
  "digits1 = Rep 1 None [CDigit]"

definition spaces1 :: rx where
  "spaces1 = Rep 1 None [CSpace]"

definition opt :: "citem list \<Rightarrow> rx" where
  "opt items = Rep 0 (Some 1) items"

text \<open>\<open>/\b(19[89]\d|20[0-3]\d)\b/g\<close>\<close>

definition yearPattern :: rx where
  "yearPattern =
     Cat [WordB,
          Grp 1 (Alt [Cat [Str ''19'', Cls [CChar CHR ''8'', CChar CHR ''9''], Cls [CDigit]],
                      Cat [Str ''20'', Cls [CRange CHR ''0'' CHR ''3''], Cls [CDigit]]]),
          WordB]"

text \<open>\<open>/\bFY['']?(\d{2,4})\b/gi\<close>\<close>

definition fyPattern :: rx where
  "fyPattern =
     Cat [WordB, Str ''FY'', opt [CChar (CHR 0x27), CChar (CHR 0x27)],
          Grp 1 (digits 2 4), WordB]"

text \<open>
  The first loop of \<open>extractYears\<close> pushes every match; the second pushes a fiscal year
  only when \<open>years\<close> does not include it yet.
\<close>

definition push_fiscal :: "int list \<Rightarrow> rmatch \<Rightarrow> int list" where
  "push_fiscal ys m =
     (let y0 = digits_val (group m 1);
          year = (if y0 < 100 then y0 + (if y0 < 50 then 2000 else 1900) else y0)
      in if year \<in> set ys then ys else ys @ [year])"

text \<open>
  \<open>years.sort()\<close> with no comparator orders the elements by their decimal strings; the
  sort is stable.
\<close>

definition years_sort :: "int list \<Rightarrow> int list" where
  "years_sort ys = sort_key show_int ys"

definition extractYears :: "string \<Rightarrow> int list" where
  "extractYears query =
     (let ys1 = map (\<lambda>m. digits_val (group m 1)) (exec_all False yearPattern query);
          ys2 = foldl push_fiscal ys1 (exec_all True fyPattern query)
      in years_sort ys2)"

text \<open>
  \<open>parseDate\<close>: the date the runtime reads; failing that, January 1 of a bare year
  between 1900 and 2100; \<open>None\<close> is \<open>null\<close>.
\<close>

definition parseDate :: "js_runtime \<Rightarrow> string \<Rightarrow> jsdate option" where
  "parseDate rt dateStr =
     (case date_parse rt dateStr of
        Time t \<Rightarrow> Some (Time t)
      | InvalidDate \<Rightarrow>
          (case parseInt dateStr of
             None \<Rightarrow> None
           | Some yearOnly \<Rightarrow>
               if 1900 \<le> yearOnly \<and> yearOnly \<le> 2100
               then Some (local_date rt yearOnly 0 1) else None))"

text \<open>
  One side of a range:
  \<open>\d{4}[-/]\d{1,2}[-/]\d{1,2}|\w+\s+\d{1,2},?\s+\d{4}|\d{4}\<close>
\<close>

definition dateExpr :: rx where
  "dateExpr =
     Alt [Cat [digits 4 4, Cls [CChar CHR ''-'', CChar CHR ''/''], digits 1 2,
               Cls [CChar CHR ''-'', CChar CHR ''/''], digits 1 2],
          Cat [Rep 1 None [CWord], spaces1, digits 1 2, opt [CChar CHR '',''], spaces1,
               digits 4 4],
          digits 4 4]"

text \<open>\<open>/(?:from|between)\s+(...)\s+(?:to|and)\s+(...)/gi\<close>\<close>

definition rangePattern :: rx where
  "rangePattern =
     Cat [Alt [Str ''from'', Str ''between''], spaces1, Grp 1 dateExpr, spaces1,
          Alt [Str ''to'', Str ''and''], spaces1, Grp 2 dateExpr]"

definition unitExpr :: rx where
  "unitExpr = Alt [Str ''year'', Str ''month'', Str ''week'', Str ''day'']"

text \<open>\<open>/past\s+(\d+)\s+(year|month|week|day)s?/gi\<close> and the same with \<open>last\<close>.\<close>

definition pastPattern :: rx where
  "pastPattern =
     Cat [Str ''past'', spaces1, Grp 1 digits1, spaces1, Grp 2 unitExpr, opt [CChar CHR ''s'']]"

definition lastPattern :: rx where
  "lastPattern =
     Cat [Str ''last'', spaces1, Grp 1 digits1, spaces1, Grp 2 unitExpr, opt [CChar CHR ''s'']]"

definition push_range :: "js_runtime \<Rightarrow> date_range list \<Rightarrow> rmatch \<Rightarrow> date_range list" where
  "push_range rt ranges m =
     (case (parseDate rt (group m 1), parseDate rt (group m 2)) of
        (Some s, Some e) \<Rightarrow> ranges @ [\<lparr>range_start = s, range_end = e\<rparr>]
      | _ \<Rightarrow> ranges)"

text \<open>
  The \<open>switch (unit)\<close> of the two relative patterns, on a copy of \<open>now\<close>.
\<close>

definition shifted_start :: "js_runtime \<Rightarrow> int \<Rightarrow> string \<Rightarrow> jsdate" where
  "shifted_start rt amount unit =
     (if unit = ''year'' then with_year rt (now rt) (year_of rt (now rt) - amount)
      else if unit = ''month'' then with_month rt (now rt) (month_of rt (now rt) - amount)
      else if unit = ''week'' then with_day rt (now rt) (day_of rt (now rt) - amount * 7)
      else if unit = ''day'' then with_day rt (now rt) (day_of rt (now rt) - amount)
      else Time (now rt))"

definition push_relative :: "js_runtime \<Rightarrow> date_range list \<Rightarrow> rmatch \<Rightarrow> date_range list" where
  "push_relative rt ranges m =
     (let amount = digits_val (group m 1);
          unit = toLowerCase (group m 2)
      in ranges @ [\<lparr>range_start = shifted_start rt amount unit, range_end = Time (now rt)\<rparr>])"

definition extractDateRanges :: "js_runtime \<Rightarrow> string \<Rightarrow> date_range list" where
  "extractDateRanges rt query =
     (let r1 = foldl (push_range rt) [] (exec_all True rangePattern query);
          r2 = foldl (push_relative rt) r1 (exec_all True pastPattern query);
          r3 = foldl (push_relative rt) r2 (exec_all True lastPattern query)
      in r3)"

definition sep :: rx where
  "sep = opt [CSpace, CChar CHR ''-'']"

definition quarterNo :: rx where
  "quarterNo = Cat [Str ''q'', Cls [CRange CHR ''1'' CHR ''4'']]"

text \<open>The eleven patterns of \<open>extractTimePeriods\<close>, all with the flags \<open>gi\<close>.\<close>

definition periodPatterns :: "rx list" where
  "periodPatterns =
    [Cat [Str ''past'', spaces1, digits1, spaces1, unitExpr, opt [CChar CHR ''s'']],
     Cat [Str ''last'', spaces1, digits1, spaces1, unitExpr, opt [CChar CHR ''s'']],
     Cat [digits1, opt [CChar CHR ''-'', CSpace], Str ''year''],
     Alt [Str ''ytd'', Cat [Str ''year'', sep, Str ''to'', sep, Str ''date'']],
     Alt [Str ''mtd'', Cat [Str ''month'', sep, Str ''to'', sep, Str ''date'']],
     Alt [Str ''qtd'', Cat [Str ''quarter'', sep, Str ''to'', sep, Str ''date'']],
     Alt [Str ''ttm'', Cat [Str ''trailing'', spaces1, Str ''twelve'', spaces1, Str ''month'',
                            opt [CChar CHR ''s'']]],
     Cat [Str ''last'', spaces1, Alt [Str ''quarter'', quarterNo]],
     Cat [Alt [quarterNo, Str ''first'', Str ''second'', Str ''third'', Str ''fourth''],
          spaces1, Str ''quarter''],
     Cat [Str ''all'', sep, Str ''time''],
     Cat [Str ''since'', spaces1, Alt [Str ''inception'', Str ''ipo'', Str ''listing'']]]"

definition keywordPeriods :: "string list" where
  "keywordPeriods = [''yesterday'', ''today'', ''this week'', ''this month'', ''this year'']"

definition extractTimePeriods :: "string \<Rightarrow> string list" where
  "extractTimePeriods query =
     (let lowerQuery = toLowerCase query;
          p1 = concat (map (\<lambda>pattern. map (\<lambda>m. toLowerCase (fst m))
                                          (exec_all True pattern query)) periodPatterns);
          p2 = filter (\<lambda>kw. str_includes lowerQuery kw) keywordPeriods
      in set_order (p1 @ p2))"

text \<open>\<open>/\$([A-Z]{1,5})\b/g\<close>\<close>

definition dollarPattern :: rx where
  "dollarPattern = Cat [Str ''$'', Grp 1 (Rep 1 (Some 5) [CRange CHR ''A'' CHR ''Z'']), WordB]"

definition extractTickers :: "string \<Rightarrow> string list" where
  "extractTickers query =
     (let t1 = filter (\<lambda>potential. potential \<in> set COMMON_TICKERS
                                      \<and> potential \<notin> set TICKER_EXCLUSIONS)
                 (map (\<lambda>m. group m 1) (exec_all False TICKER_PATTERN query));
          t2 = foldl (\<lambda>ts m. if group m 1 \<in> set ts then ts else ts @ [group m 1]) t1
                 (exec_all False dollarPattern query)
      in set_order t2)"

definition analyzeQuery :: "js_runtime \<Rightarrow> string \<Rightarrow> QueryContext" where
  "analyzeQuery rt query =
     (let lowerQuery = toLowerCase query;
          ys = extractYears query;
          ranges = extractDateRanges rt query;
          periods = extractTimePeriods query;
          ts = extractTickers query;
          kws = filter (\<lambda>kw. str_includes lowerQuery kw) CALCULATION_KEYWORDS
      in \<lparr>years = ys, dateRanges = ranges, timePeriods = periods, tickers = ts,
          requiresFullData =
            (0 < length kws
             \<or> list_ex (\<lambda>p. str_includes p ''year'' \<or> str_includes p ''annual''
                                \<or> str_includes p ''all time'') periods
             \<or> 1 < length ys
             \<or> 0 < length ranges),
          calculationKeywords = kws\<rparr>)"

text \<open>
  \<open>isDateRelevant\<close>. A date that cannot be read is kept. A comparison with the \<open>NaN\<close>
  year of an invalid range bound is false.
\<close>

definition range_covers :: "js_runtime \<Rightarrow> int \<Rightarrow> int \<Rightarrow> date_range \<Rightarrow> bool" where
  "range_covers rt toleranceYears year rng =
     (case (getFullYear rt (range_start rng), getFullYear rt (range_end rng)) of
        (Some s, Some e) \<Rightarrow> s - toleranceYears \<le> year \<and> year \<le> e + toleranceYears
      | _ \<Rightarrow> False)"

definition isDateRelevant :: "js_runtime \<Rightarrow> string \<Rightarrow> QueryContext \<Rightarrow> int \<Rightarrow> bool" where
  "isDateRelevant rt dateStr context toleranceYears =
     (case date_parse rt dateStr of
        InvalidDate \<Rightarrow> True
      | Time t \<Rightarrow>
          (let year = year_of rt t in
           if length (years context) = 0 \<and> length (dateRanges context) = 0
           then year_of rt (now rt) - 3 \<le> year
           else if list_ex (\<lambda>y. \<bar>year - y\<bar> \<le> toleranceYears) (years context) then True
           else list_ex (range_covers rt toleranceYears year) (dateRanges context)))"

section \<open>Token estimator\<close>

datatype content_type = ctText | ctJson | ctCode

text \<open>
  \<open>estimateTokens\<close>: \<open>Math.ceil(text.length / CHARS_PER_TOKEN[type])\<close>, with 4 characters
  per token for text and 3.5 for JSON and code; 0 for the empty string. The quotients
  by 4 and by 3.5 are written over the integers: \<open>ceil(n / 3.5) = ceil(2n / 7)\<close>.
\<close>

definition estimateTokens :: "string \<Rightarrow> content_type \<Rightarrow> nat" where
  "estimateTokens text ty =
     (if text = [] then 0
      else case ty of
             ctText \<Rightarrow> (length text + 3) div 4
           | ctJson \<Rightarrow> (2 * length text + 6) div 7
           | ctCode \<Rightarrow> (2 * length text + 6) div 7)"

text \<open>\<open>estimateJsonTokens\<close> of a value that is a string already.\<close>

definition estimateJsonTokens :: "string \<Rightarrow> nat" where
  "estimateJsonTokens jsonStr = estimateTokens jsonStr ctJson"

record TokenBudget =
  maxInput :: int
  toolResults :: int
  perToolResult :: int
  chatHistory :: int

definition TOKEN_BUDGETS_large :: TokenBudget where
  "TOKEN_BUDGETS_large =
     \<lparr>maxInput = 200000, toolResults = 150000, perToolResult = 40000, chatHistory = 10000\<rparr>"

definition TOKEN_BUDGETS_small :: TokenBudget where
  "TOKEN_BUDGETS_small =
     \<lparr>maxInput = 12000, toolResults = 8000, perToolResult = 3000, chatHistory = 2000\<rparr>"

definition getTokenBudget :: "string \<Rightarrow> TokenBudget" where
  "getTokenBudget model =
     (let smallContextModels = [''gpt-3.5-turbo'', ''gpt-3.5''];
          isSmall = list_ex (\<lambda>m. str_includes (toLowerCase model) m) smallContextModels
      in if isSmall then TOKEN_BUDGETS_small else TOKEN_BUDGETS_large)"

section \<open>Context compactor\<close>

text \<open>
  \<open>xs.slice(start, end)\<close> and \<open>xs.slice(start)\<close> of an array or a string: a negative
  index counts from the end, and both are clamped to the length.
\<close>

definition slice_index :: "nat \<Rightarrow> int \<Rightarrow> nat" where
  "slice_index len i = (if i < 0 then nat (max (int len + i) 0) else min (nat i) len)"

definition js_slice :: "'a list \<Rightarrow> int \<Rightarrow> int \<Rightarrow> 'a list" where
  "js_slice xs start stop =
     (let s = slice_index (length xs) start; e = slice_index (length xs) stop
      in take (e - s) (drop s xs))"

definition js_slice_from :: "'a list \<Rightarrow> int \<Rightarrow> 'a list" where
  "js_slice_from xs start = drop (slice_index (length xs) start) xs"

definition VERBOSE_FIELDS :: "string list" where
  "VERBOSE_FIELDS =
     [''reportedCurrency'', ''acceptedDate'', ''fillingDate'', ''link'', ''finalLink'', ''cik'']"

definition TRUNCATABLE_TEXT_FIELDS :: "string list" where
  "TRUNCATABLE_TEXT_FIELDS = [''banner_image'', ''source_url'', ''article_url'', ''image'']"

text \<open>
  \<open>CompactOptions\<close>: an optional field that is absent is \<open>None\<close> and takes the value of
  \<open>DEFAULT_OPTIONS\<close>. The token budget and the array cap are integers.
\<close>

record CompactOptions =
  maxTokens :: int
  maxArrayLength :: "int option"
  removeVerboseFields :: "bool option"
  truncateUrls :: "bool option"
  minify :: "bool option"
  query :: "string option"
  queryContext :: "QueryContext option"

definition opt_maxArrayLength :: "CompactOptions \<Rightarrow> int" where
  "opt_maxArrayLength options = (case maxArrayLength options of None \<Rightarrow> 50 | Some n \<Rightarrow> n)"

definition opt_removeVerboseFields :: "CompactOptions \<Rightarrow> bool" where
  "opt_removeVerboseFields options =
     (case removeVerboseFields options of None \<Rightarrow> True | Some b \<Rightarrow> b)"

definition opt_truncateUrls :: "CompactOptions \<Rightarrow> bool" where
  "opt_truncateUrls options = (case truncateUrls options of None \<Rightarrow> True | Some b \<Rightarrow> b)"

definition opt_minify :: "CompactOptions \<Rightarrow> bool" where
  "opt_minify options = (case minify options of None \<Rightarrow> True | Some b \<Rightarrow> b)"

text \<open>\<open>typeof x === 'object' && x !== null\<close>: an array or an object.\<close>

definition is_object :: "json \<Rightarrow> bool" where
  "is_object x = (case x of JArr xs \<Rightarrow> True | JObj kvs \<Rightarrow> True | _ \<Rightarrow> False)"

text \<open>
  \<open>x[field]\<close> for one of the field names the source reads (none is an index or
  \<open>length\<close>): the property of an object, \<open>None\<close> (\<open>undefined\<close>) otherwise.
\<close>

definition get_prop :: "json \<Rightarrow> string \<Rightarrow> json option" where
  "get_prop x field = (case x of JObj kvs \<Rightarrow> map_of kvs field | _ \<Rightarrow> None)"

text \<open>\<open>/^\d{4}[-/]\d{1,2}[-/]\d{1,2}/\<close>\<close>

definition isoLikePattern :: rx where
  "isoLikePattern =
     Cat [Bol, digits 4 4, Cls [CChar CHR ''-'', CChar CHR ''/''], digits 1 2,
          Cls [CChar CHR ''-'', CChar CHR ''/''], digits 1 2]"

definition looks_like_date :: "js_runtime \<Rightarrow> json option \<Rightarrow> bool" where
  "looks_like_date rt v =
     (case v of
        Some (JStr s) \<Rightarrow> rx_test False isoLikePattern s \<or> date_parse rt s \<noteq> InvalidDate
      | _ \<Rightarrow> False)"

definition findDateField :: "js_runtime \<Rightarrow> json \<Rightarrow> string option" where
  "findDateField rt obj =
     find (\<lambda>field. looks_like_date rt (get_prop obj field))
       [''date'', ''timestamp'', ''time'', ''period'', ''fiscalDateEnding'', ''reportDate'',
        ''publishedDate'']"

text \<open>
  The own properties of an object that a pass rebuilds with \<open>result[key] = value\<close> for
  each entry: every entry but one with the key \<open>__proto__\<close>, for which the assignment
  creates no own property. (When that value is an object or an array, the source makes
  it the prototype of the result. The model does not follow prototypes: a value in which
  a key \<open>__proto__\<close> holds an object or an array is outside its domain.)
\<close>

definition assigned :: "(string \<times> json) list \<Rightarrow> (string \<times> json) list" where
  "assigned kvs = filter (\<lambda>(key, v). key \<noteq> ''__proto__'') kvs"

text \<open>The predicate of the \<open>filter\<close> in \<open>filterByQueryContext\<close>.\<close>

definition keep_item :: "js_runtime \<Rightarrow> QueryContext \<Rightarrow> string \<Rightarrow> json \<Rightarrow> bool" where
  "keep_item rt context dateField item =
     (if \<not> is_object item then True
      else case get_prop item dateField of
             Some (JStr dateValue) \<Rightarrow> isDateRelevant rt dateValue context 1
           | _ \<Rightarrow> True)"

lemma size_item_lt: "x \<in> set xs \<Longrightarrow> size x < Suc (size_list size xs)"
  by (induction xs) auto

lemma size_field_lt:
  "(k, v) \<in> set kvs \<Longrightarrow> size v < Suc (size_list (size_prod (\<lambda>x. 0) size) kvs)"
  by (induction kvs) auto

lemma in_set_js_slice: "x \<in> set (js_slice xs a b) \<Longrightarrow> x \<in> set xs"
  by (auto simp: js_slice_def Let_def dest: in_set_takeD in_set_dropD)

lemma in_set_js_slice_from: "x \<in> set (js_slice_from xs a) \<Longrightarrow> x \<in> set xs"
  by (auto simp: js_slice_from_def dest: in_set_dropD)

function filterByQueryContext :: "js_runtime \<Rightarrow> QueryContext \<Rightarrow> json \<Rightarrow> json" where
  "filterByQueryContext rt context (JArr xs) =
     (case (if xs \<noteq> [] \<and> is_object (hd xs) then findDateField rt (hd xs) else None) of
        Some dateField \<Rightarrow>
          (let filtered = filter (keep_item rt context dateField) xs
           in if 0 < length filtered
              then JArr (map (filterByQueryContext rt context) filtered)
              else JArr (js_slice xs 0 20))
      | None \<Rightarrow> JArr (map (filterByQueryContext rt context) xs))"
| "filterByQueryContext rt context (JObj kvs) =
     JObj (assigned (map (\<lambda>(key, v). (key, filterByQueryContext rt context v)) kvs))"
| "filterByQueryContext rt context JNull = JNull"
| "filterByQueryContext rt context (JBool b) = JBool b"
| "filterByQueryContext rt context (JNum n) = JNum n"
| "filterByQueryContext rt context (JStr s) = JStr s"
  by pat_completeness auto
termination
  by (relation "measure (\<lambda>(rt, context, x). size x)")
     (auto dest: in_set_js_slice size_item_lt size_field_lt)

datatype ordering = NewestFirst | OldestFirst | UnknownOrder

text \<open>
  The loop of \<open>detectDateOrdering\<close> over the field names: the first field that is a
  string on both elements and a valid date on both decides.
\<close>

definition field_times :: "js_runtime \<Rightarrow> json \<Rightarrow> json \<Rightarrow> string \<Rightarrow> (int \<times> int) option" where
  "field_times rt first second field =
     (case (get_prop first field, get_prop second field) of
        (Some (JStr firstDate), Some (JStr secondDate)) \<Rightarrow>
          (case (date_parse rt firstDate, date_parse rt secondDate) of
             (Time d1, Time d2) \<Rightarrow> Some (d1, d2)
           | _ \<Rightarrow> None)
      | _ \<Rightarrow> None)"

definition detectDateOrdering :: "js_runtime \<Rightarrow> json list \<Rightarrow> ordering" where
  "detectDateOrdering rt arr =
     (if length arr < 2 then UnknownOrder
      else let first = arr ! 0; second = arr ! 1 in
        if \<not> is_object first \<or> \<not> is_object second then UnknownOrder
        else case List.map_filter (field_times rt first second)
                    [''date'', ''timestamp'', ''time'', ''period'', ''fiscalDateEnding'',
                     ''reportDate''] of
               [] \<Rightarrow> UnknownOrder
             | (d1, d2) # others \<Rightarrow> if d1 > d2 then NewestFirst else OldestFirst)"

definition truncated_items :: "js_runtime \<Rightarrow> int \<Rightarrow> json list \<Rightarrow> json list" where
  "truncated_items rt maxLength xs =
     (if int (length xs) \<le> maxLength then xs
      else case detectDateOrdering rt xs of
             NewestFirst \<Rightarrow> js_slice xs 0 maxLength
           | OldestFirst \<Rightarrow> js_slice_from xs (- maxLength)
           | UnknownOrder \<Rightarrow> js_slice xs 0 maxLength)"

lemma in_set_truncated_items: "x \<in> set (truncated_items rt maxLength xs) \<Longrightarrow> x \<in> set xs"
  by (auto simp: truncated_items_def dest: in_set_js_slice in_set_js_slice_from
           split: if_splits ordering.splits)

text \<open>
  \<open>truncateArrays\<close>: an array within the limit is mapped; a longer one is cut first, from
  the front or from the end by the detected ordering, and the kept elements are mapped.
\<close>

function truncateArrays :: "js_runtime \<Rightarrow> int \<Rightarrow> json \<Rightarrow> json" where
  "truncateArrays rt maxLength (JArr xs) =
     JArr (map (truncateArrays rt maxLength) (truncated_items rt maxLength xs))"
| "truncateArrays rt maxLength (JObj kvs) =
     JObj (assigned (map (\<lambda>(key, v). (key, truncateArrays rt maxLength v)) kvs))"
| "truncateArrays rt maxLength JNull = JNull"
| "truncateArrays rt maxLength (JBool b) = JBool b"
| "truncateArrays rt maxLength (JNum n) = JNum n"
| "truncateArrays rt maxLength (JStr s) = JStr s"
  by pat_completeness auto
termination
  by (relation "measure (\<lambda>(rt, maxLength, x). size x)")
     (auto dest: in_set_truncated_items size_item_lt size_field_lt)

fun removeFields :: "string list \<Rightarrow> json \<Rightarrow> json" where
  "removeFields fieldsToRemove (JArr xs) = JArr (map (removeFields fieldsToRemove) xs)"
| "removeFields fieldsToRemove (JObj kvs) =
     JObj (assigned (map (\<lambda>(key, v). (key, removeFields fieldsToRemove v))
                       (filter (\<lambda>(key, v). key \<notin> set fieldsToRemove) kvs)))"
| "removeFields fieldsToRemove JNull = JNull"
| "removeFields fieldsToRemove (JBool b) = JBool b"
| "removeFields fieldsToRemove (JNum n) = JNum n"
| "removeFields fieldsToRemove (JStr s) = JStr s"

text \<open>The replacement of a long string under one of the truncatable field names.\<close>

definition shortened :: "js_runtime \<Rightarrow> string \<Rightarrow> string" where
  "shortened rt v =
     (if starts_with v ''http'' then
        (case url_origin rt v of
           Some origin \<Rightarrow> origin @ ''/...''
         | None \<Rightarrow> js_slice v 0 50 @ ''...'')
      else js_slice v 0 100 @ ''...'')"

fun truncateTextFields :: "js_runtime \<Rightarrow> string list \<Rightarrow> json \<Rightarrow> json"
  and truncateTextField :: "js_runtime \<Rightarrow> string list \<Rightarrow> string \<Rightarrow> json \<Rightarrow> json" where
  "truncateTextFields rt names (JArr xs) = JArr (map (truncateTextFields rt names) xs)"
| "truncateTextFields rt names (JObj kvs) =
     JObj (assigned (map (\<lambda>(key, v). (key, truncateTextField rt names key v)) kvs))"
| "truncateTextFields rt names JNull = JNull"
| "truncateTextFields rt names (JBool b) = JBool b"
| "truncateTextFields rt names (JNum n) = JNum n"
| "truncateTextFields rt names (JStr s) = JStr s"
| "truncateTextField rt names key (JStr s) =
     (if key \<in> set names \<and> 50 < length s then JStr (shortened rt s) else JStr s)"
| "truncateTextField rt names key (JArr xs) = truncateTextFields rt names (JArr xs)"
| "truncateTextField rt names key (JObj kvs) = truncateTextFields rt names (JObj kvs)"
| "truncateTextField rt names key JNull = JNull"
| "truncateTextField rt names key (JBool b) = JBool b"
| "truncateTextField rt names key (JNum n) = JNum n"

text \<open>\<open>Array.prototype.join\<close>.\<close>

fun join :: "string \<Rightarrow> string list \<Rightarrow> string" where
  "join s [] = []"
| "join s [x] = x"
| "join s (x # y # ys) = x @ s @ join s (y # ys)"

definition hex_digit :: "nat \<Rightarrow> char" where
  "hex_digit n = (if n < 10 then char_of (48 + n) else char_of (87 + n))"

text \<open>
  The quoting of \<open>JSON.stringify\<close>: the quotation mark and the backslash are escaped,
  a control character is written as its short escape or as \<open>\u00XX\<close>.
\<close>

definition quote_char :: "char \<Rightarrow> string" where
  "quote_char c =
     (if c = CHR 0x22 then [CHR 0x5C, CHR 0x22]
      else if c = CHR 0x5C then [CHR 0x5C, CHR 0x5C]
      else if c = CHR 0x08 then [CHR 0x5C, CHR ''b'']
      else if c = CHR 0x0C then [CHR 0x5C, CHR ''f'']
      else if c = CHR 0x0A then [CHR 0x5C, CHR ''n'']
      else if c = CHR 0x0D then [CHR 0x5C, CHR ''r'']
      else if c = CHR 0x09 then [CHR 0x5C, CHR ''t'']
      else if code_of c < 32
        then [CHR 0x5C, CHR ''u'', CHR ''0'', CHR ''0'',
              hex_digit (code_of c div 16), hex_digit (code_of c mod 16)]
      else [c])"

definition json_quote :: "string \<Rightarrow> string" where
  "json_quote s = [CHR 0x22] @ concat (map quote_char s) @ [CHR 0x22]"

text \<open>\<open>JSON.stringify(x)\<close>.\<close>

fun stringify :: "json \<Rightarrow> string" where
  "stringify JNull = ''null''"
| "stringify (JBool b) = (if b then ''true'' else ''false'')"
| "stringify (JNum n) = show_int n"
| "stringify (JStr s) = json_quote s"
| "stringify (JArr xs) = ''['' @ join '','' (map stringify xs) @ '']''"
| "stringify (JObj kvs) =
     ''{'' @ join '','' (map (\<lambda>(key, v). json_quote key @ '':'' @ stringify v) kvs) @ ''}''"

text \<open>\<open>JSON.stringify(x, null, 2)\<close>, at the indentation \<open>ind\<close>.\<close>

fun stringify_pretty :: "string \<Rightarrow> json \<Rightarrow> string" where
  "stringify_pretty ind JNull = ''null''"
| "stringify_pretty ind (JBool b) = (if b then ''true'' else ''false'')"
| "stringify_pretty ind (JNum n) = show_int n"
| "stringify_pretty ind (JStr s) = json_quote s"
| "stringify_pretty ind (JArr xs) =
     (if xs = [] then ''[]''
      else ''['' @ [CHR 0x0A] @ (ind @ ''  '')
           @ join ('','' @ [CHR 0x0A] @ (ind @ ''  ''))
               (map (stringify_pretty (ind @ ''  '')) xs)
           @ [CHR 0x0A] @ ind @ '']'')"
| "stringify_pretty ind (JObj kvs) =
     (if kvs = [] then ''{}''
      else ''{'' @ [CHR 0x0A] @ (ind @ ''  '')
           @ join ('','' @ [CHR 0x0A] @ (ind @ ''  ''))
               (map (\<lambda>(key, v). json_quote key @ '': '' @ stringify_pretty (ind @ ''  '') v) kvs)
           @ [CHR 0x0A] @ ind @ ''}'')"

text \<open>The marker that \<open>truncateString\<close> and the final safety of \<open>compactJson\<close> append.\<close>

definition truncation_marker :: string where
  "truncation_marker = ''...[truncated]''"

text \<open>
  \<open>truncateString(str, maxChars)\<close>. The source calls it with
  \<open>maxChars = opts.maxTokens * 3.5\<close>, a multiple of one half: the model takes twice the
  limit, \<open>maxChars2\<close>. \<open>slice\<close> cuts the limit to an integer towards zero.
\<close>

definition halve_towards_zero :: "int \<Rightarrow> int" where
  "halve_towards_zero h = (if 0 \<le> h then h div 2 else - ((- h) div 2))"

definition truncateString :: "string \<Rightarrow> int \<Rightarrow> string" where
  "truncateString str maxChars2 =
     (if 2 * int (length str) \<le> maxChars2 then str
      else js_slice str 0 (halve_towards_zero maxChars2) @ truncation_marker)"

text \<open>
  \<open>Math.floor(arrayLimit * 0.7)\<close> in binary floating point. The double nearest to 0.7 is
  \<open>6305039478318694 / 2^53\<close>; the product with the integer \<open>n\<close> is rounded to 53
  significant bits, ties to even, and then floored. (The result is \<open>\<lfloor>7n/10\<rfloor>\<close> except at
  some multiples of ten: \<open>Math.floor(90 * 0.7)\<close> is 62.)
\<close>

fun bitlen :: "nat \<Rightarrow> nat" where
  "bitlen n = (if n = 0 then 0 else Suc (bitlen (n div 2)))"

declare bitlen.simps [simp del]

definition round_even :: "nat \<Rightarrow> nat \<Rightarrow> nat" where
  "round_even p k =
     (let q = p div 2 ^ k; r = p mod 2 ^ k
      in if 2 ^ k < 2 * r \<or> (2 * r = 2 ^ k \<and> odd q) then q + 1 else q)"

definition mul07_floor :: "nat \<Rightarrow> nat" where
  "mul07_floor n =
     (let p = n * 6305039478318694; k = bitlen p - 53
      in (round_even p k * 2 ^ k) div 2 ^ 53)"

lemma bitlen_bounds: "0 < n \<Longrightarrow> 2 ^ (bitlen n - 1) \<le> n \<and> n < 2 ^ bitlen n"
proof (induction n rule: bitlen.induct)
  case (1 n)
  show ?case
  proof (cases "n div 2 = 0")
    case True
    with 1(2) have "n = 1" by (simp add: div_eq_0_iff)
    then show ?thesis by (simp add: bitlen.simps)
  next
    case False
    with 1 have ih: "2 ^ (bitlen (n div 2) - 1) \<le> n div 2 \<and> n div 2 < 2 ^ bitlen (n div 2)"
      by simp
    have pos: "0 < bitlen (n div 2)" using False by (simp add: bitlen.simps)
    have b: "bitlen n = Suc (bitlen (n div 2))" using 1(2) by (simp add: bitlen.simps)
    obtain j where j: "bitlen (n div 2) = Suc j" using pos by (cases "bitlen (n div 2)") auto
    have lo: "(2::nat) ^ Suc j \<le> n" using ih j by simp linarith
    have hi: "n < (2::nat) ^ Suc (Suc j)" using ih j by simp linarith
    show ?thesis using lo hi b j by simp
  qed
qed

lemma mul07_floor_less:
  assumes "0 < n"
  shows "mul07_floor n < n"
proof -
  define m :: nat where "m = 6305039478318694"
  define p where "p = n * m"
  define k where "k = bitlen p - 53"
  define q where "q = p div 2 ^ k"
  have m_lo: "(2::nat) ^ 52 \<le> m" and m_hi: "m + 2 \<le> 2 ^ 53" by (simp_all add: m_def)
  have ppos: "0 < p" using assms by (simp add: p_def m_def)
  have "1 * m \<le> n * m" using assms by (intro mult_le_mono1) simp
  then have p52: "(2::nat) ^ 52 \<le> p" using m_lo unfolding p_def by linarith
  from bitlen_bounds[OF ppos] have lo: "2 ^ (bitlen p - 1) \<le> p" and hi: "p < 2 ^ bitlen p"
    by simp_all
  have "(2::nat) ^ 52 < 2 ^ bitlen p" using p52 hi by (rule le_less_trans)
  then have "52 < bitlen p" by (rule power_less_imp_less_exp[rotated]) simp
  then have "bitlen p - 1 = k + 52" by (simp add: k_def)
  with lo have A: "2 ^ k * (2::nat) ^ 52 \<le> p" by (simp only: power_add)
  have "n * m < n * 2 ^ 53" using assms m_hi by (intro mult_strict_left_mono) simp_all
  then have "p < (2 * n) * 2 ^ 52" by (simp add: p_def)
  with A have "2 ^ k * (2::nat) ^ 52 < (2 * n) * 2 ^ 52" by (rule le_less_trans)
  then have B: "2 ^ k < 2 * n" by (rule mult_less_cancel2[THEN iffD1, THEN conjunct2])
  have "q * 2 ^ k \<le> p" by (simp add: q_def)
  moreover have "round_even p k \<le> q + 1" by (simp add: round_even_def q_def Let_def)
  then have "round_even p k * 2 ^ k \<le> (q + 1) * 2 ^ k" by (rule mult_le_mono1)
  ultimately have "round_even p k * 2 ^ k \<le> p + 2 ^ k" by (simp add: algebra_simps)
  also have "\<dots> < n * m + 2 * n" using B by (simp add: p_def)
  also have "\<dots> = n * (m + 2)" by (simp add: algebra_simps)
  also have "\<dots> \<le> n * 2 ^ 53" using m_hi by (rule mult_le_mono2)
  finally have "round_even p k * 2 ^ k < n * 2 ^ 53" .
  then have "(round_even p k * 2 ^ k) div 2 ^ 53 < n"
    by (rule less_mult_imp_div_less)
  then show ?thesis
    unfolding mul07_floor_def Let_def p_def k_def m_def .
qed

text \<open>
  The context of the query: \<open>opts.queryContext || (opts.query ? analyzeQuery(opts.query) : null)\<close>.
\<close>

definition context_of :: "js_runtime \<Rightarrow> CompactOptions \<Rightarrow> QueryContext option" where
  "context_of rt options =
     (case queryContext options of
        Some c \<Rightarrow> Some c
      | None \<Rightarrow>
          (case query options of
             None \<Rightarrow> None
           | Some q \<Rightarrow> if q = [] then None else Some (analyzeQuery rt q)))"

text \<open>
  Passes 1 to 4, from the parsed structure, at one array limit; then the serialization.
\<close>

definition compact_value ::
  "js_runtime \<Rightarrow> CompactOptions \<Rightarrow> QueryContext option \<Rightarrow> json \<Rightarrow> int \<Rightarrow> json" where
  "compact_value rt options ctx parsed arrayLimit =
     (let c0 = (case ctx of Some c \<Rightarrow> filterByQueryContext rt c parsed | None \<Rightarrow> parsed);
          c1 = truncateArrays rt arrayLimit c0;
          c2 = (if opt_removeVerboseFields options then removeFields VERBOSE_FIELDS c1 else c1);
          c3 = (if opt_truncateUrls options
                then truncateTextFields rt TRUNCATABLE_TEXT_FIELDS c2 else c2)
      in c3)"

definition serialize :: "CompactOptions \<Rightarrow> json \<Rightarrow> string" where
  "serialize options compacted =
     (if opt_minify options then stringify compacted else stringify_pretty [] compacted)"

definition compact_at ::
  "js_runtime \<Rightarrow> CompactOptions \<Rightarrow> QueryContext option \<Rightarrow> json \<Rightarrow> int \<Rightarrow> string" where
  "compact_at rt options ctx parsed arrayLimit =
     serialize options (compact_value rt options ctx parsed arrayLimit)"

text \<open>
  Pass 5, the loop \<open>while (currentTokens > opts.maxTokens && arrayLimit > 5)\<close>: its state
  is the last serialization and the array limit.
\<close>

function shrink ::
  "js_runtime \<Rightarrow> CompactOptions \<Rightarrow> QueryContext option \<Rightarrow> json \<Rightarrow> string \<Rightarrow> int \<Rightarrow> string"
  where
  "shrink rt options ctx parsed result arrayLimit =
     (if maxTokens options < int (estimateJsonTokens result) \<and> 5 < arrayLimit
      then (let arrayLimit' = int (mul07_floor (nat arrayLimit))
            in shrink rt options ctx parsed
                 (compact_at rt options ctx parsed arrayLimit') arrayLimit')
      else result)"
  by pat_completeness auto
termination
proof (relation "measure (\<lambda>(rt, options, ctx, parsed, result, arrayLimit). nat arrayLimit)")
  show "wf (measure (\<lambda>(rt, options, ctx, parsed, result, arrayLimit). nat arrayLimit))"
    by simp
next
  fix rt :: js_runtime and options :: CompactOptions and ctx :: "QueryContext option"
    and parsed :: json and result :: string and arrayLimit x :: int
  assume a: "maxTokens options < int (estimateJsonTokens result) \<and> 5 < arrayLimit"
    and x: "x = int (mul07_floor (nat arrayLimit))"
  have "mul07_floor (nat arrayLimit) < nat arrayLimit"
    using a by (intro mul07_floor_less) simp
  then show "((rt, options, ctx, parsed, compact_at rt options ctx parsed x, x),
              (rt, options, ctx, parsed, result, arrayLimit))
             \<in> measure (\<lambda>(rt, options, ctx, parsed, result, arrayLimit). nat arrayLimit)"
    using x by simp
qed

declare shrink.simps [simp del]

text \<open>
  \<open>compactJson\<close>. A string is parsed first; when the parse throws, the string itself is
  truncated and returned. The final safety cuts the serialization at
  \<open>Math.floor(opts.maxTokens * 3.5)\<close> characters and appends the marker.
\<close>

definition hard_truncate :: "CompactOptions \<Rightarrow> string \<Rightarrow> string" where
  "hard_truncate options result =
     (if maxTokens options < int (estimateJsonTokens result)
      then js_slice result 0 ((7 * maxTokens options) div 2) @ truncation_marker
      else result)"

definition compact_parsed :: "js_runtime \<Rightarrow> CompactOptions \<Rightarrow> json \<Rightarrow> string" where
  "compact_parsed rt options parsed =
     (let ctx = context_of rt options;
          arrayLimit = opt_maxArrayLength options;
          result = shrink rt options ctx parsed
                     (compact_at rt options ctx parsed arrayLimit) arrayLimit
      in hard_truncate options result)"

definition compactJson :: "js_runtime \<Rightarrow> json \<Rightarrow> CompactOptions \<Rightarrow> string" where
  "compactJson rt data options =
     (case data of
        JStr s \<Rightarrow>
          (case json_parse rt s of
             None \<Rightarrow> truncateString s (7 * maxTokens options)
           | Some parsed \<Rightarrow> compact_parsed rt options parsed)
      | _ \<Rightarrow> compact_parsed rt options data)"

section \<open>Agent loop\<close>

text \<open>
  The arguments of a tool call are a \<open>Record<string, unknown>\<close>: the properties of an
  object.
\<close>

type_synonym tool_args = "(string \<times> json) list"

datatype AgentEvent =
    Thinking string
  | ToolStart string tool_args
  | ToolEnd string tool_args string int
  | ToolError string string
  | AnswerStart
  | AnswerChunk string
  | Done string "(string \<times> tool_args \<times> string) list" nat

text \<open>
  The events carry \<open>thinking{message}\<close>, \<open>tool_start{tool, args}\<close>,
  \<open>tool_end{tool, args, result, duration}\<close>, \<open>tool_error{tool, error}\<close>, \<open>answer_start\<close>,
  \<open>answer_chunk{text}\<close> and \<open>done{answer, toolCalls, iterations}\<close>; a \<open>ToolCallRecord\<close>
  \<open>{tool, args, result}\<close> is a triple.
\<close>

type_synonym ToolCallRecord = "string \<times> tool_args \<times> string"

record ToolSummary =
  summary_id :: string
  toolName :: string
  summary_args :: tool_args
  summary :: string

record ToolExecutionResult =
  exec_record :: ToolCallRecord
  exec_summary :: ToolSummary
  promptEntry :: string

record ToolCallsExecutionResult =
  records :: "ToolCallRecord list"
  summaries :: "ToolSummary list"
  promptEntries :: "string list"

record tool_call =
  call_name :: string
  call_args :: tool_args

text \<open>
  Modelled from the spec: the message the language-model gateway returns,
  \<open>message{text?, toolCalls?[]}\<close>, with the helpers \<open>extractTextContent\<close> and
  \<open>hasToolCalls\<close> of \<open>utils/ai-message\<close> (not among the sources): the text of the message,
  and whether it carries at least one tool call.
\<close>

record AIMessage =
  content :: string
  tool_calls :: "tool_call list"

definition extractTextContent :: "AIMessage \<Rightarrow> string" where
  "extractTextContent response = content response"

definition hasToolCalls :: "AIMessage \<Rightarrow> bool" where
  "hasToolCalls response = (tool_calls response \<noteq> [])"

record llm_request =
  req_prompt :: string
  req_model :: string
  req_systemPrompt :: string
  req_tools :: "string list"

record stored_context =
  ctx_toolName :: string
  ctx_args :: tool_args
  ctx_result :: string

text \<open>
  A tool: its name and its \<open>invoke\<close>, which acts on the world \<open>'w\<close> and returns the raw
  result, or throws (\<open>Inl\<close> of the error's message).
\<close>

record 'w tool_def =
  tool_name :: string
  invoke :: "tool_args \<Rightarrow> 'w \<Rightarrow> (string + json) \<times> 'w"

text \<open>
  The collaborators of the agent that are not among the sources, as operations on a world
  \<open>'w\<close> (the model provider, the disk of the \<open>ContextManager\<close>, the \<open>Scratchpad\<close> of the run,
  the clock). An operation that can throw returns \<open>Inl\<close> of the error's message.
  \<^item> \<open>callLlm\<close>: the reasoning call of \<open>callModel\<close>;
  \<^item> \<open>callLlmText\<close>: the call of \<open>summarizeToolResult\<close>, as \<open>String(summary)\<close>;
  \<^item> \<open>streamLlmResponse\<close>: the chunks of the streamed answer and, when the stream
    throws after them, the error;
  \<^item> \<open>getFastModel\<close>;
  \<^item> \<open>saveAndGetSummary\<close>, \<open>getToolDescription\<close>, \<open>loadFullContexts\<close>, \<open>getSummary\<close>:
    the \<open>ContextManager\<close>;
  \<^item> \<open>newScratchpad\<close>, \<open>addThinking\<close>, \<open>addToolEntry\<close>, \<open>getToolSummaries\<close>: the
    \<open>Scratchpad\<close>;
  \<^item> \<open>date_now\<close>: \<open>Date.now()\<close>.
\<close>

record 'w collaborators =
  callLlm :: "llm_request \<Rightarrow> 'w \<Rightarrow> (string + AIMessage) \<times> 'w"
  callLlmText :: "llm_request \<Rightarrow> 'w \<Rightarrow> (string + string) \<times> 'w"
  streamLlmResponse :: "llm_request \<Rightarrow> 'w \<Rightarrow> (string list \<times> string option) \<times> 'w"
  getFastModel :: "string \<Rightarrow> string \<Rightarrow> string"
  saveAndGetSummary :: "string \<Rightarrow> tool_args \<Rightarrow> string \<Rightarrow> 'w \<Rightarrow> (string + ToolSummary) \<times> 'w"
  getToolDescription :: "string \<Rightarrow> tool_args \<Rightarrow> string"
  loadFullContexts :: "string list \<Rightarrow> 'w \<Rightarrow> stored_context list \<times> 'w"
  getSummary :: "'w \<Rightarrow> string"
  newScratchpad :: "string \<Rightarrow> 'w \<Rightarrow> 'w"
  addThinking :: "string \<Rightarrow> 'w \<Rightarrow> 'w"
  addToolEntry :: "string \<Rightarrow> 'w \<Rightarrow> 'w"
  getToolSummaries :: "'w \<Rightarrow> string list"
  date_now :: "'w \<Rightarrow> int"

text \<open>The fields of an \<open>Agent\<close>; \<open>runtime\<close> holds the built-ins the compactor calls.\<close>

record 'w agent =
  agent_model :: string
  modelProvider :: string
  maxIterations :: nat
  tools :: "'w tool_def list"
  systemPrompt :: string
  collab :: "'w collaborators"
  runtime :: js_runtime

text \<open>\<open>this.toolMap.get(name)\<close>: of two tools with one name the map holds the later.\<close>

definition toolMap_get :: "'w agent \<Rightarrow> string \<Rightarrow> 'w tool_def option" where
  "toolMap_get ag name = map_of (rev (map (\<lambda>t. (tool_name t, t)) (tools ag))) name"

definition nl :: string where
  "nl = [CHR 0x0A]"

text \<open>\<open>String(v)\<close>, as a template literal converts a value.\<close>

fun js_string :: "json \<Rightarrow> string" where
  "js_string JNull = ''null''"
| "js_string (JBool b) = (if b then ''true'' else ''false'')"
| "js_string (JNum n) = show_int n"
| "js_string (JStr s) = s"
| "js_string (JArr xs) = join '','' (map (\<lambda>x. if x = JNull then [] else js_string x) xs)"
| "js_string (JObj kvs) = ''[object Object]''"

definition buildIterationPrompt :: "string \<Rightarrow> string list \<Rightarrow> string" where
  "buildIterationPrompt originalQuery toolSummaries =
     ''Query: '' @ originalQuery @ nl @ nl
     @ ''Data retrieved and work completed so far:'' @ nl
     @ join nl toolSummaries @ nl @ nl
     @ ''Review the data above. If you have sufficient information to answer the query, respond directly WITHOUT calling any tools. Only call additional tools if there are specific data gaps that prevent you from answering.''"

definition buildFinalAnswerPrompt :: "string \<Rightarrow> string \<Rightarrow> string" where
  "buildFinalAnswerPrompt originalQuery fullContextData =
     ''Query: '' @ originalQuery @ nl @ nl
     @ ''Data:'' @ nl
     @ fullContextData @ nl @ nl
     @ ''Answer proportionally - match depth to the question's complexity.''"

definition buildToolSummaryPrompt :: "string \<Rightarrow> string \<Rightarrow> tool_args \<Rightarrow> string \<Rightarrow> string" where
  "buildToolSummaryPrompt originalQuery name toolArgs res =
     (let argsStr = join '', '' (map (\<lambda>(k, v). k @ ''='' @ js_string v) toolArgs)
      in ''Summarize this tool result concisely.'' @ nl @ nl
         @ ''Query: '' @ originalQuery @ nl
         @ ''Tool: '' @ name @ ''('' @ argsStr @ '')'' @ nl
         @ ''Result:'' @ nl
         @ res @ nl @ nl
         @ ''Write a 1 sentence summary of what was retrieved. Include specific values (numbers, dates) if relevant.'' @ nl
         @ ''Format: '' @ [CHR 0x22] @ ''[tool_call] -> [what was learned]'' @ [CHR 0x22])"

text \<open>
  Modelled from the spec: the chat history of \<open>utils/in-memory-chat-history\<close> (not among
  the sources), as what \<open>hasMessages()\<close> and \<open>getUserMessages()\<close> return.
\<close>

record chat_history =
  hasMessages :: bool
  getUserMessages :: "string list"

fun numbered :: "nat \<Rightarrow> string list \<Rightarrow> string list" where
  "numbered i [] = []"
| "numbered i (msg # msgs) = (show_nat (i + 1) @ ''. '' @ msg) # numbered (i + 1) msgs"

definition buildInitialPrompt :: "string \<Rightarrow> chat_history option \<Rightarrow> string" where
  "buildInitialPrompt q history =
     (case history of
        None \<Rightarrow> q
      | Some h \<Rightarrow>
          if \<not> hasMessages h then q
          else let userMessages = getUserMessages h in
            if length userMessages = 0 then q
            else
              (let recentMessages = js_slice_from userMessages (- 5);
                   historyContext = join nl (numbered 0 recentMessages);
                   truncationNote =
                     (if 5 < length userMessages
                      then nl @ ''(Showing last 5 of '' @ show_nat (length userMessages)
                           @ '' queries)''
                      else [])
               in ''Current query to answer: '' @ q @ nl @ nl
                  @ ''Previous user queries for context:'' @ nl
                  @ historyContext @ truncationNote))"

text \<open>\<open>callModel\<close> and \<open>summarizeToolResult\<close>.\<close>

definition callModel :: "'w agent \<Rightarrow> string \<Rightarrow> 'w \<Rightarrow> (string + AIMessage) \<times> 'w" where
  "callModel ag prompt w =
     callLlm (collab ag)
       \<lparr>req_prompt = prompt, req_model = agent_model ag, req_systemPrompt = systemPrompt ag,
        req_tools = map tool_name (tools ag)\<rparr> w"

definition summarizeToolResult ::
  "'w agent \<Rightarrow> string \<Rightarrow> string \<Rightarrow> tool_args \<Rightarrow> string \<Rightarrow> 'w \<Rightarrow> (string + string) \<times> 'w" where
  "summarizeToolResult ag q name toolArgs res w =
     callLlmText (collab ag)
       \<lparr>req_prompt = buildToolSummaryPrompt q name toolArgs res,
        req_model = getFastModel (collab ag) (modelProvider ag) (agent_model ag),
        req_systemPrompt = ''You are a concise data summarizer.'',
        req_tools = []\<rparr> w"

text \<open>
  The \<open>catch\<close> block of \<open>executeToolCall\<close>: the \<open>tool_error\<close> event, the record with
  the result \<open>Error: <message>\<close> and the summary with the empty \<open>id\<close>.
\<close>

definition error_result :: "string \<Rightarrow> string" where
  "error_result errorMessage = ''Error: '' @ errorMessage"

definition tool_failed ::
  "'w agent \<Rightarrow> string \<Rightarrow> tool_args \<Rightarrow> string \<Rightarrow> AgentEvent list \<times> ToolExecutionResult" where
  "tool_failed ag name toolArgs errorMessage =
     (let errorSummary =
            \<lparr>summary_id = [], toolName = name, summary_args = toolArgs,
             summary = getToolDescription (collab ag) name toolArgs @ '' [FAILED]''\<rparr>
      in ([ToolError name errorMessage],
          \<lparr>exec_record = (name, toolArgs, error_result errorMessage),
           exec_summary = errorSummary,
           promptEntry = ''- '' @ summary errorSummary @ '': '' @ errorMessage\<rparr>))"

text \<open>The message of the error thrown for a tool that is not in the map.\<close>

definition tool_not_found :: "string \<Rightarrow> string" where
  "tool_not_found name = ''Tool '' @ [CHR 0x27] @ name @ [CHR 0x27] @ '' not found''"

text \<open>
  \<open>executeToolCall\<close>: the events it yields, the value it returns and the world after it.
  Everything from the lookup of the tool to the summarizing call stands in one \<open>try\<close>
  block; the \<open>tool_end\<close> event is yielded before the summarizing call.
\<close>

definition executeToolCall ::
  "'w agent \<Rightarrow> string \<Rightarrow> tool_args \<Rightarrow> string \<Rightarrow> 'w
     \<Rightarrow> AgentEvent list \<times> ToolExecutionResult \<times> 'w" where
  "executeToolCall ag name toolArgs q w =
     (let startTime = date_now (collab ag) w in
      case toolMap_get ag name of
        None \<Rightarrow>
          (let (evs, r) = tool_failed ag name toolArgs (tool_not_found name)
           in (ToolStart name toolArgs # evs, r, w))
      | Some t \<Rightarrow>
          (case invoke t toolArgs w of
             (Inl errorMessage, w1) \<Rightarrow>
               (let (evs, r) = tool_failed ag name toolArgs errorMessage
                in (ToolStart name toolArgs # evs, r, w1))
           | (Inr rawResult, w1) \<Rightarrow>
               (let res = (case rawResult of JStr s \<Rightarrow> s | _ \<Rightarrow> stringify rawResult);
                    duration = date_now (collab ag) w1 - startTime
                in case saveAndGetSummary (collab ag) name toolArgs res w1 of
                     (Inl errorMessage, w2) \<Rightarrow>
                       (let (evs, r) = tool_failed ag name toolArgs errorMessage
                        in (ToolStart name toolArgs # evs, r, w2))
                   | (Inr sm, w2) \<Rightarrow>
                       (case summarizeToolResult ag q name toolArgs res w2 of
                          (Inl errorMessage, w3) \<Rightarrow>
                            (let (evs, r) = tool_failed ag name toolArgs errorMessage
                             in (ToolStart name toolArgs # ToolEnd name toolArgs res duration
                                   # evs, r, w3))
                        | (Inr llmSummary, w3) \<Rightarrow>
                            ([ToolStart name toolArgs, ToolEnd name toolArgs res duration],
                             \<lparr>exec_record = (name, toolArgs, res), exec_summary = sm,
                              promptEntry = llmSummary\<rparr>,
                             w3)))))"

text \<open>\<open>executeToolCalls\<close>: the tool calls of a response, one after the other.\<close>

fun executeToolCalls ::
  "'w agent \<Rightarrow> tool_call list \<Rightarrow> string \<Rightarrow> 'w
     \<Rightarrow> AgentEvent list \<times> ToolCallsExecutionResult \<times> 'w" where
  "executeToolCalls ag [] q w =
     ([], \<lparr>records = [], summaries = [], promptEntries = []\<rparr>, w)"
| "executeToolCalls ag (toolCall # rest) q w =
     (let (evs1, r1, w1) = executeToolCall ag (call_name toolCall) (call_args toolCall) q w;
          (evs2, r2, w2) = executeToolCalls ag rest q w1
      in (evs1 @ evs2,
          \<lparr>records = exec_record r1 # records r2,
           summaries = exec_summary r1 # summaries r2,
           promptEntries = promptEntry r1 # promptEntries r2\<rparr>,
          w2))"

text \<open>
  The file pointers \<open>buildFullContextForAnswer\<close> loads: the ids of the summaries, those
  of length 0 filtered out.
\<close>

definition filepaths_of :: "ToolSummary list \<Rightarrow> string list" where
  "filepaths_of sms = filter (\<lambda>i. 0 < length i) (map summary_id sms)"

text \<open>
  The loop of \<open>buildFullContextForAnswer\<close> over the loaded contexts, with
  \<open>formattedContexts\<close> and \<open>totalTokens\<close> as its state.
\<close>

fun format_contexts ::
  "'w agent \<Rightarrow> string \<Rightarrow> int \<Rightarrow> int \<Rightarrow> nat \<Rightarrow> string list \<Rightarrow> int \<Rightarrow> stored_context list
     \<Rightarrow> string list" where
  "format_contexts ag q perResultBudget totalBudget n formattedContexts totalTokens [] =
     formattedContexts"
| "format_contexts ag q perResultBudget totalBudget n formattedContexts totalTokens (c # cs) =
     (let description = getToolDescription (collab ag) (ctx_toolName c) (ctx_args c);
          compactedData =
            compactJson (runtime ag) (JStr (ctx_result c))
              \<lparr>maxTokens = perResultBudget, maxArrayLength = Some 100,
               removeVerboseFields = Some True, truncateUrls = Some True, minify = Some True,
               query = Some q, queryContext = None\<rparr>;
          formatted = ''### '' @ description @ nl @ compactedData;
          tokens = int (estimateTokens formatted ctJson)
      in if totalBudget < totalTokens + tokens
         then formattedContexts
              @ [''### Note'' @ nl @ ''[Additional ''
                 @ show_nat (n - length formattedContexts)
                 @ '' data sources omitted to fit context window]'']
         else format_contexts ag q perResultBudget totalBudget n
                (formattedContexts @ [formatted]) (totalTokens + tokens) cs)"

definition buildFullContextForAnswer ::
  "'w agent \<Rightarrow> ToolSummary list \<Rightarrow> string \<Rightarrow> 'w \<Rightarrow> string \<times> 'w" where
  "buildFullContextForAnswer ag sms q w =
     (if length sms = 0 then (''No data was gathered.'', w)
      else let filepaths = filepaths_of sms in
        if length filepaths = 0 then (''No data was successfully gathered.'', w)
        else
          (case loadFullContexts (collab ag) filepaths w of
             (contexts, w1) \<Rightarrow>
               if length contexts = 0 then (''Failed to load context data.'', w1)
               else
                 (let budget = getTokenBudget (agent_model ag);
                      totalBudget = toolResults budget;
                      perResultBudget =
                        min (perToolResult budget) (totalBudget div int (length contexts))
                  in (join (nl @ nl)
                        (format_contexts ag q perResultBudget totalBudget (length contexts)
                           [] 0 contexts),
                      w1))))"

text \<open>
  \<open>generateFinalAnswer\<close>: the events it yields, the error when the stream throws, and
  the world after it.
\<close>

definition generateFinalAnswer ::
  "'w agent \<Rightarrow> string \<Rightarrow> ToolSummary list \<Rightarrow> 'w \<Rightarrow> AgentEvent list \<times> string option \<times> 'w" where
  "generateFinalAnswer ag q sms w =
     (case buildFullContextForAnswer ag sms q w of
        (fullContext, w1) \<Rightarrow>
          (case streamLlmResponse (collab ag)
                  \<lparr>req_prompt = buildFinalAnswerPrompt q fullContext,
                   req_model = agent_model ag, req_systemPrompt = systemPrompt ag,
                   req_tools = []\<rparr> w1 of
             ((chunks, err), w2) \<Rightarrow> (AnswerStart # map AnswerChunk chunks, err, w2)))"

text \<open>
  \<open>fullAnswer\<close>: the text of the \<open>answer_chunk\<close> events the loop over the answer
  generator adds up.
\<close>

fun fullAnswer_of :: "AgentEvent list \<Rightarrow> string" where
  "fullAnswer_of [] = []"
| "fullAnswer_of (AnswerChunk t # evs) = t @ fullAnswer_of evs"
| "fullAnswer_of (e # evs) = fullAnswer_of evs"

datatype outcome = Returned | Threw string

text \<open>
  The two places where \<open>run\<close> streams the final answer and yields \<open>done\<close>: inside the
  loop, after a response without tool calls, and after the loop, when the iteration
  bound is reached. Both add up \<open>fullAnswer\<close> from the \<open>answer_chunk\<close> events; only the
  second falls back to a fixed message when \<open>fullAnswer\<close> is empty.
\<close>

text \<open>
  The fallback answer
  \<open>`Reached maximum iterations (${this.maxIterations}). ${this.contextManager.getSummary()}`\<close>.
\<close>

definition limit_message :: "nat \<Rightarrow> string \<Rightarrow> string" where
  "limit_message n contextSummary =
     ''Reached maximum iterations ('' @ show_nat n @ ''). '' @ contextSummary"

definition answer_in_loop ::
  "'w agent \<Rightarrow> string \<Rightarrow> ToolSummary list \<Rightarrow> ToolCallRecord list \<Rightarrow> nat \<Rightarrow> 'w
     \<Rightarrow> AgentEvent list \<times> outcome \<times> 'w" where
  "answer_in_loop ag q allSummaries allToolCalls iteration w =
     (case generateFinalAnswer ag q allSummaries w of
        (evs, Some e, w1) \<Rightarrow> (evs, Threw e, w1)
      | (evs, None, w1) \<Rightarrow>
          (evs @ [Done (fullAnswer_of evs) allToolCalls iteration], Returned, w1))"

definition answer_at_limit ::
  "'w agent \<Rightarrow> string \<Rightarrow> ToolSummary list \<Rightarrow> ToolCallRecord list \<Rightarrow> nat \<Rightarrow> 'w
     \<Rightarrow> AgentEvent list \<times> outcome \<times> 'w" where
  "answer_at_limit ag q allSummaries allToolCalls iteration w =
     (case generateFinalAnswer ag q allSummaries w of
        (evs, Some e, w1) \<Rightarrow> (evs, Threw e, w1)
      | (evs, None, w1) \<Rightarrow>
          (evs @ [Done (if fullAnswer_of evs \<noteq> [] then fullAnswer_of evs
                        else limit_message (maxIterations ag) (getSummary (collab ag) w1))
                    allToolCalls iteration],
           Returned, w1))"

text \<open>
  The main loop of \<open>run\<close>, from the test \<open>iteration < this.maxIterations\<close>: the events
  yielded from there on, how the generator ends (a model call that throws ends it
  without \<open>done\<close>), and the world.
\<close>

function agent_loop ::
  "'w agent \<Rightarrow> string \<Rightarrow> nat \<Rightarrow> ToolCallRecord list \<Rightarrow> ToolSummary list \<Rightarrow> string \<Rightarrow> 'w
     \<Rightarrow> AgentEvent list \<times> outcome \<times> 'w" where
  "agent_loop ag q iteration allToolCalls allSummaries currentPrompt w =
     (if iteration < maxIterations ag then
        (case callModel ag currentPrompt w of
           (Inl e, w1) \<Rightarrow> ([], Threw e, w1)
         | (Inr response, w1) \<Rightarrow>
             (let responseText = extractTextContent response;
                  thinks = (responseText \<noteq> [] \<and> hasToolCalls response);
                  w2 = (if thinks then addThinking (collab ag) responseText w1 else w1);
                  evs0 = (if thinks then [Thinking responseText] else [])
              in if \<not> hasToolCalls response then
                   (if length allSummaries = 0 \<and> responseText \<noteq> [] then
                      (evs0 @ [AnswerStart, AnswerChunk responseText,
                               Done responseText [] (iteration + 1)],
                       Returned, w2)
                    else
                      (case answer_in_loop ag q allSummaries allToolCalls (iteration + 1) w2 of
                         (evs, out, w3) \<Rightarrow> (evs0 @ evs, out, w3)))
                 else
                   (case executeToolCalls ag (tool_calls response) q w2 of
                      (evs, res, w3) \<Rightarrow>
                        (let w4 = foldl (\<lambda>x entry. addToolEntry (collab ag) entry x) w3
                                    (promptEntries res)
                         in case agent_loop ag q (iteration + 1) (allToolCalls @ records res)
                                   (allSummaries @ summaries res)
                                   (buildIterationPrompt q (getToolSummaries (collab ag) w4)) w4
                            of (evs', out, w5) \<Rightarrow> (evs0 @ evs @ evs', out, w5)))))
      else answer_at_limit ag q allSummaries allToolCalls iteration w)"
  by pat_completeness auto
termination
  by (relation "measure (\<lambda>(ag, q, iteration, calls, sms, prompt, w). maxIterations ag - iteration)")
     auto

declare agent_loop.simps [simp del]

text \<open>
  Whether the loop of \<open>run\<close> ends by its test \<open>iteration < this.maxIterations\<close>, every
  response up to the bound having asked for tools, and not by a \<open>return\<close> or an error
  inside: the control flow of \<open>agent_loop\<close> without its events.
\<close>

function reaches_limit :: "'w agent \<Rightarrow> string \<Rightarrow> nat \<Rightarrow> string \<Rightarrow> 'w \<Rightarrow> bool" where
  "reaches_limit ag q iteration currentPrompt w =
     (if iteration < maxIterations ag then
        (case callModel ag currentPrompt w of
           (Inl e, w1) \<Rightarrow> False
         | (Inr response, w1) \<Rightarrow>
             (let responseText = extractTextContent response;
                  thinks = (responseText \<noteq> [] \<and> hasToolCalls response);
                  w2 = (if thinks then addThinking (collab ag) responseText w1 else w1)
              in if \<not> hasToolCalls response then False
                 else
                   (case executeToolCalls ag (tool_calls response) q w2 of
                      (evs, res, w3) \<Rightarrow>
                        (let w4 = foldl (\<lambda>x entry. addToolEntry (collab ag) entry x) w3
                                    (promptEntries res)
                         in reaches_limit ag q (iteration + 1)
                              (buildIterationPrompt q (getToolSummaries (collab ag) w4)) w4))))
      else True)"
  by pat_completeness auto
termination
  by (relation "measure (\<lambda>(ag, q, iteration, prompt, w). maxIterations ag - iteration)") auto

declare reaches_limit.simps [simp del]

text \<open>\<open>Agent.run\<close>.\<close>

text \<open>The answer of the guard of \<open>run\<close> against an agent without tools.\<close>

definition no_tools_message :: string where
  "no_tools_message = ''No tools available. Please check your API key configuration.''"

definition run_agent ::
  "'w agent \<Rightarrow> string \<Rightarrow> chat_history option \<Rightarrow> 'w \<Rightarrow> AgentEvent list \<times> outcome \<times> 'w" where
  "run_agent ag q inMemoryHistory w =
     (if length (tools ag) = 0 then
        ([Done no_tools_message [] 0],
         Returned, w)
      else agent_loop ag q 0 [] [] (buildInitialPrompt q inMemoryHistory)
             (newScratchpad (collab ag) q w))"

section \<open>A runtime for the examples\<close>

text \<open>
  The theorems below hold for every runtime. Their examples are evaluated in one runtime,
  \<open>utc_runtime\<close>: a host in the time zone UTC, of which only the part the examples use is
  written out. Its \<open>JSON.parse\<close> reads the JSON texts whose numbers are integers; its
  \<open>Date\<close> reads the date-only form \<open>YYYY-MM-DD\<close>; its \<open>URL\<close> reads \<open>http(s)://host\<close>
  followed by a path, with a host of lower-case letters, digits, dots and hyphens. On
  any other text it answers as if the built-in had failed, which a real host need not do.
\<close>

definition is_ws :: "char \<Rightarrow> bool" where
  "is_ws c = (c = CHR '' '' \<or> c = CHR 0x09 \<or> c = CHR 0x0A \<or> c = CHR 0x0D)"

definition skip_ws :: "string \<Rightarrow> string" where
  "skip_ws s = dropWhile is_ws s"

definition hex_val :: "char \<Rightarrow> nat option" where
  "hex_val c =
     (if is_digit c then Some (code_of c - 48)
      else if in_range CHR ''a'' CHR ''f'' c then Some (code_of c - 87)
      else if in_range CHR ''A'' CHR ''F'' c then Some (code_of c - 55)
      else None)"

definition hex4 :: "char \<Rightarrow> char \<Rightarrow> char \<Rightarrow> char \<Rightarrow> nat option" where
  "hex4 a b c d =
     (case (hex_val a, hex_val b, hex_val c, hex_val d) of
        (Some x, Some y, Some z, Some u) \<Rightarrow> Some (((x * 16 + y) * 16 + z) * 16 + u)
      | _ \<Rightarrow> None)"

definition escape_of :: "char \<Rightarrow> char option" where
  "escape_of e =
     (if e = CHR 0x22 then Some (CHR 0x22)
      else if e = CHR 0x5C then Some (CHR 0x5C)
      else if e = CHR ''/'' then Some (CHR ''/'')
      else if e = CHR ''b'' then Some (CHR 0x08)
      else if e = CHR ''f'' then Some (CHR 0x0C)
      else if e = CHR ''n'' then Some (CHR 0x0A)
      else if e = CHR ''r'' then Some (CHR 0x0D)
      else if e = CHR ''t'' then Some (CHR 0x09)
      else None)"

text \<open>The characters of a JSON string after its opening quotation mark.\<close>

fun parse_chars :: "string \<Rightarrow> (string \<times> string) option" where
  "parse_chars [] = None"
| "parse_chars (c # cs) =
     (if c = CHR 0x22 then Some ([], cs)
      else if c = CHR 0x5C then
        (case cs of
           [] \<Rightarrow> None
         | e # r \<Rightarrow>
             if e = CHR ''u'' then
               (case r of
                  a # b # c' # d # r' \<Rightarrow>
                    (case hex4 a b c' d of
                       None \<Rightarrow> None
                     | Some n \<Rightarrow>
                         if n < 256
                         then map_option (\<lambda>(t, r''). (char_of n # t, r'')) (parse_chars r')
                         else None)
                | _ \<Rightarrow> None)
             else
               (case escape_of e of
                  None \<Rightarrow> None
                | Some x \<Rightarrow> map_option (\<lambda>(t, r'). (x # t, r')) (parse_chars r)))
      else if code_of c < 32 then None
      else map_option (\<lambda>(t, r). (c # t, r)) (parse_chars cs))"

definition parse_number :: "string \<Rightarrow> (json \<times> string) option" where
  "parse_number s =
     (let neg = (s \<noteq> [] \<and> hd s = CHR ''-'');
          u = (if neg then tl s else s);
          ds = takeWhile is_digit u;
          r = dropWhile is_digit u
      in if ds = [] \<or> (1 < length ds \<and> hd ds = CHR ''0'') then None
         else if r \<noteq> [] \<and> hd r \<in> {CHR ''.'', CHR ''e'', CHR ''E''} then None
         else Some (JNum (if neg then - digits_val ds else digits_val ds), r))"

text \<open>
  A property set twice keeps its first place and takes the later value; the properties
  whose names are array indices come first, in ascending order.
\<close>

fun put_prop :: "string \<Rightarrow> json \<Rightarrow> (string \<times> json) list \<Rightarrow> (string \<times> json) list" where
  "put_prop k v [] = [(k, v)]"
| "put_prop k v ((k', v') # kvs) =
     (if k = k' then (k, v) # kvs else (k', v') # put_prop k v kvs)"

definition is_index_key :: "string \<Rightarrow> bool" where
  "is_index_key k =
     (k \<noteq> [] \<and> list_all is_digit k \<and> (k = ''0'' \<or> hd k \<noteq> CHR ''0'')
      \<and> length k \<le> 10 \<and> digits_val k < 4294967295)"

definition property_order :: "(string \<times> json) list \<Rightarrow> (string \<times> json) list" where
  "property_order kvs =
     sort_key (\<lambda>(k, v). digits_val k) (filter (\<lambda>(k, v). is_index_key k) kvs)
     @ filter (\<lambda>(k, v). \<not> is_index_key k) kvs"

text \<open>
  A recursive-descent reader of JSON texts. The first argument bounds the number of
  values read; \<open>parse_json\<close> starts it above the length of the text.
\<close>

fun pvalue :: "nat \<Rightarrow> string \<Rightarrow> (json \<times> string) option"
  and pitems :: "nat \<Rightarrow> json list \<Rightarrow> string \<Rightarrow> (json \<times> string) option"
  and pmembers :: "nat \<Rightarrow> (string \<times> json) list \<Rightarrow> string \<Rightarrow> (json \<times> string) option" where
  "pvalue 0 s = None"
| "pvalue (Suc n) s =
     (case skip_ws s of
        [] \<Rightarrow> None
      | c # cs \<Rightarrow>
          if c = CHR 0x22 then map_option (\<lambda>(t, r). (JStr t, r)) (parse_chars cs)
          else if c = CHR ''['' then
            (case skip_ws cs of
               [] \<Rightarrow> None
             | d # ds \<Rightarrow> if d = CHR '']'' then Some (JArr [], ds) else pitems n [] cs)
          else if c = CHR ''{'' then
            (case skip_ws cs of
               [] \<Rightarrow> None
             | d # ds \<Rightarrow> if d = CHR ''}'' then Some (JObj [], ds) else pmembers n [] cs)
          else if starts_with (c # cs) ''null'' then Some (JNull, drop 4 (c # cs))
          else if starts_with (c # cs) ''true'' then Some (JBool True, drop 4 (c # cs))
          else if starts_with (c # cs) ''false'' then Some (JBool False, drop 5 (c # cs))
          else parse_number (c # cs))"
| "pitems 0 acc s = None"
| "pitems (Suc n) acc s =
     (case pvalue n s of
        None \<Rightarrow> None
      | Some (v, r) \<Rightarrow>
          (case skip_ws r of
             [] \<Rightarrow> None
           | d # ds \<Rightarrow>
               if d = CHR '','' then pitems n (acc @ [v]) ds
               else if d = CHR '']'' then Some (JArr (acc @ [v]), ds)
               else None))"
| "pmembers 0 acc s = None"
| "pmembers (Suc n) acc s =
     (case skip_ws s of
        [] \<Rightarrow> None
      | c # cs \<Rightarrow>
          if c \<noteq> CHR 0x22 then None
          else
            (case parse_chars cs of
               None \<Rightarrow> None
             | Some (k, r) \<Rightarrow>
                 (case skip_ws r of
                    [] \<Rightarrow> None
                  | d # ds \<Rightarrow>
                      if d \<noteq> CHR '':'' then None
                      else
                        (case pvalue n ds of
                           None \<Rightarrow> None
                         | Some (v, r2) \<Rightarrow>
                             (case skip_ws r2 of
                                [] \<Rightarrow> None
                              | e # es \<Rightarrow>
                                  if e = CHR '','' then pmembers n (put_prop k v acc) es
                                  else if e = CHR ''}''
                                  then Some (JObj (property_order (put_prop k v acc)), es)
                                  else None)))))"

definition parse_json :: "string \<Rightarrow> json option" where
  "parse_json s =
     (case pvalue (Suc (length s)) s of
        None \<Rightarrow> None
      | Some (v, r) \<Rightarrow> if skip_ws r = [] then Some v else None)"

text \<open>
  The proleptic Gregorian calendar: the day number (days since 1970-01-01) of a civil
  date with month 1 to 12, and back.
\<close>

definition days_from_civil :: "int \<Rightarrow> int \<Rightarrow> int \<Rightarrow> int" where
  "days_from_civil y m d =
     (let y' = (if m \<le> 2 then y - 1 else y);
          era = y' div 400;
          yoe = y' - era * 400;
          mp = (m + 9) mod 12;
          doy = (153 * mp + 2) div 5 + d - 1;
          doe = yoe * 365 + yoe div 4 - yoe div 100 + doy
      in era * 146097 + doe - 719468)"

definition civil_from_days :: "int \<Rightarrow> int \<times> int \<times> int" where
  "civil_from_days z =
     (let z' = z + 719468;
          era = z' div 146097;
          doe = z' - era * 146097;
          yoe = (doe - doe div 1460 + doe div 36524 - doe div 146096) div 365;
          doy = doe - (365 * yoe + yoe div 4 - yoe div 100);
          mp = (5 * doy + 2) div 153;
          d = doy - (153 * mp + 2) div 5 + 1;
          m = (if mp < 10 then mp + 3 else mp - 9);
          y = yoe + era * 400
      in (if m \<le> 2 then y + 1 else y, m, d))"

definition ms_per_day :: int where
  "ms_per_day = 86400000"

text \<open>\<open>MakeDay\<close> with a month counted from 0, and \<open>TimeClip\<close>.\<close>

definition make_day :: "int \<Rightarrow> int \<Rightarrow> int \<Rightarrow> int" where
  "make_day y m d = days_from_civil (y + m div 12) (m mod 12 + 1) 1 + d - 1"

definition time_clip :: "int \<Rightarrow> jsdate" where
  "time_clip t = (if \<bar>t\<bar> \<le> 8640000000000000 then Time t else InvalidDate)"

definition utc_year :: "int \<Rightarrow> int" where
  "utc_year t = fst (civil_from_days (t div ms_per_day))"

definition utc_month :: "int \<Rightarrow> int" where
  "utc_month t = fst (snd (civil_from_days (t div ms_per_day))) - 1"

definition utc_day :: "int \<Rightarrow> int" where
  "utc_day t = snd (snd (civil_from_days (t div ms_per_day)))"

definition days_in_month :: "int \<Rightarrow> int \<Rightarrow> int" where
  "days_in_month y m = days_from_civil (y + m div 12) (m mod 12 + 1) 1 - days_from_civil y m 1"

text \<open>The date-only form \<open>YYYY-MM-DD\<close>, read as midnight UTC.\<close>

definition parse_iso_date :: "string \<Rightarrow> jsdate" where
  "parse_iso_date s =
     (if length s = 10 \<and> list_all is_digit (take 4 s) \<and> s ! 4 = CHR ''-''
         \<and> list_all is_digit (take 2 (drop 5 s)) \<and> s ! 7 = CHR ''-''
         \<and> list_all is_digit (drop 8 s)
      then (let y = digits_val (take 4 s);
                m = digits_val (take 2 (drop 5 s));
                d = digits_val (drop 8 s)
            in if 1 \<le> m \<and> m \<le> 12 \<and> 1 \<le> d \<and> d \<le> days_in_month y m
               then Time (days_from_civil y m d * ms_per_day) else InvalidDate)
      else InvalidDate)"

definition is_host_char :: "char \<Rightarrow> bool" where
  "is_host_char c =
     (in_range CHR ''a'' CHR ''z'' c \<or> is_digit c \<or> c = CHR ''.'' \<or> c = CHR ''-'')"

definition origin_after :: "string \<Rightarrow> string \<Rightarrow> string option" where
  "origin_after scheme s =
     (let host = takeWhile is_host_char s; r = dropWhile is_host_char s
      in if host \<noteq> [] \<and> r \<noteq> [] \<and> hd r = CHR ''/'' then Some (scheme @ host) else None)"

definition parse_url_origin :: "string \<Rightarrow> string option" where
  "parse_url_origin s =
     (if starts_with s ''https://'' then origin_after ''https://'' (drop 8 s)
      else if starts_with s ''http://'' then origin_after ''http://'' (drop 7 s)
      else None)"

text \<open>The instant of the examples is 2026-01-21T00:00:00Z.\<close>

definition utc_runtime :: js_runtime where
  "utc_runtime =
     \<lparr>now = 1768953600000,
      date_parse = parse_iso_date,
      year_of = utc_year,
      month_of = utc_month,
      day_of = utc_day,
      with_year = (\<lambda>t y. time_clip (make_day y (utc_month t) (utc_day t) * ms_per_day
                                      + t mod ms_per_day)),
      with_month = (\<lambda>t m. time_clip (make_day (utc_year t) m (utc_day t) * ms_per_day
                                       + t mod ms_per_day)),
      with_day = (\<lambda>t d. time_clip (make_day (utc_year t) (utc_month t) d * ms_per_day
                                     + t mod ms_per_day)),
      local_date = (\<lambda>y m d. time_clip (make_day (if 0 \<le> y \<and> y \<le> 99 then 1900 + y else y) m d
                                         * ms_per_day)),
      url_origin = parse_url_origin,
      json_parse = parse_json\<rparr>"

section \<open>A scripted world for the examples\<close>

text \<open>
  A world for the examples of the agent loop: the responses the model will give, the
  chunks the answer stream will yield, the error of the summarizing call (if it is to
  fail), the scratchpad and a clock.
\<close>

record script_world =
  pending :: "(string + AIMessage) list"
  answer_chunks :: "string list"
  summarizer_error :: "string option"
  scratch :: "string list"
  clock :: int

definition scripted :: "script_world collaborators" where
  "scripted =
     \<lparr>callLlm = (\<lambda>req w. case pending w of
                              [] \<Rightarrow> (Inl ''no response'', w)
                            | r # rs \<Rightarrow> (r, w\<lparr>pending := rs\<rparr>)),
      callLlmText = (\<lambda>req w. (case summarizer_error w of
                                  Some e \<Rightarrow> Inl e
                                | None \<Rightarrow> Inr ''summary'', w)),
      streamLlmResponse = (\<lambda>req w. ((answer_chunks w, None), w)),
      getFastModel = (\<lambda>provider m. m),
      saveAndGetSummary = (\<lambda>name a res w.
          (Inr \<lparr>summary_id = ''ctx_1'', toolName = name, summary_args = a, summary = name\<rparr>, w)),
      getToolDescription = (\<lambda>name a. name),
      loadFullContexts = (\<lambda>ids w. ([], w)),
      getSummary = (\<lambda>w. ''0 contexts''),
      newScratchpad = (\<lambda>q w. w\<lparr>scratch := []\<rparr>),
      addThinking = (\<lambda>t w. w\<lparr>scratch := scratch w @ [t]\<rparr>),
      addToolEntry = (\<lambda>t w. w\<lparr>scratch := scratch w @ [t]\<rparr>),
      getToolSummaries = scratch,
      date_now = clock\<rparr>"

text \<open>A tool that answers a fixed JSON text after 120 milliseconds.\<close>

definition price_tool :: "script_world tool_def" where
  "price_tool =
     \<lparr>tool_name = ''financial_search'',
      invoke = (\<lambda>a w. (Inr (JStr ''{}''), w\<lparr>clock := clock w + 120\<rparr>))\<rparr>"

definition scripted_agent :: "nat \<Rightarrow> script_world agent" where
  "scripted_agent n =
     \<lparr>agent_model = ''gpt-5.2'', modelProvider = ''openai'', maxIterations = n,
      tools = [price_tool], systemPrompt = ''You are Dexter.'', collab = scripted,
      runtime = utc_runtime\<rparr>"

definition world0 :: script_world where
  "world0 = \<lparr>pending = [], answer_chunks = [], summarizer_error = None, scratch = [], clock = 0\<rparr>"

text \<open>The model answers at once, without a tool call.\<close>

definition direct_world :: script_world where
  "direct_world = world0\<lparr>pending := [Inr \<lparr>content = ''Hello!'', tool_calls = []\<rparr>]\<rparr>"

text \<open>
  The model answers with an empty text and without a tool call; the answer stream yields
  no chunk.
\<close>

definition silent_world :: script_world where
  "silent_world = world0\<lparr>pending := [Inr \<lparr>content = [], tool_calls = []\<rparr>]\<rparr>"

text \<open>
  The model asks for a tool that is not configured; the answer stream yields no chunk.
\<close>

definition unknown_tool_world :: script_world where
  "unknown_tool_world =
     world0\<lparr>pending :=
       [Inr \<lparr>content = [], tool_calls = [\<lparr>call_name = ''web_search'', call_args = []\<rparr>]\<rparr>]\<rparr>"

text \<open>
  The model asks for the configured tool, the tool succeeds, and the summarizing call
  fails.
\<close>

definition summarizer_down_world :: script_world where
  "summarizer_down_world =
     world0\<lparr>pending :=
              [Inr \<lparr>content = [],
                    tool_calls = [\<lparr>call_name = ''financial_search'', call_args = []\<rparr>]\<rparr>],
            answer_chunks := [''No data.''],
            summarizer_error := Some ''rate limit exceeded''\<rparr>"



section \<open>The words of the guarantees\<close>

text \<open>
  The concatenation, in emission order, of the text of every \<open>answer_chunk\<close> event emitted
  after the most recent \<open>answer_start\<close> event.
\<close>

fun collect :: "string \<Rightarrow> AgentEvent list \<Rightarrow> string" where
  "collect acc [] = acc"
| "collect acc (AnswerStart # es) = collect [] es"
| "collect acc (AnswerChunk t # es) = collect (acc @ t) es"
| "collect acc (e # es) = collect acc es"

definition chunks_after_last_start :: "AgentEvent list \<Rightarrow> string" where
  "chunks_after_last_start evs = collect [] evs"

fun is_tool_event :: "AgentEvent \<Rightarrow> bool" where
  "is_tool_event (ToolStart n a) = True"
| "is_tool_event (ToolEnd n a r d) = True"
| "is_tool_event (ToolError n e) = True"
| "is_tool_event e = False"

fun is_done :: "AgentEvent \<Rightarrow> bool" where
  "is_done (Done a tc n) = True"
| "is_done e = False"

fun is_tool_start :: "AgentEvent \<Rightarrow> bool" where
  "is_tool_start (ToolStart n a) = True"
| "is_tool_start e = False"

text \<open>
  Each \<open>tool_start\<close> is followed, before the next \<open>tool_start\<close>, by exactly one of
  \<open>tool_end\<close> and \<open>tool_error\<close> with the same tool name: the tool events of an iteration
  are pairs.
\<close>

fun closes :: "string \<Rightarrow> AgentEvent \<Rightarrow> bool" where
  "closes t (ToolEnd t' a r d) = (t' = t)"
| "closes t (ToolError t' e) = (t' = t)"
| "closes t e = False"

fun paired :: "AgentEvent list \<Rightarrow> bool" where
  "paired [] = True"
| "paired (ToolStart t a # e # es) = (closes t e \<and> paired es)"
| "paired es = False"

text \<open>
  What a run that yields \<open>done\<close> ends with: the \<open>done\<close> event is the last and the
  only one, and its answer is the concatenation of the chunks, or the message about the
  bound when the loop ended at the bound (\<open>atLimit\<close>) and the concatenation is empty.
\<close>

definition ends_well :: "'w agent \<Rightarrow> 'w \<Rightarrow> bool \<Rightarrow> AgentEvent list \<Rightarrow> bool" where
  "ends_well ag w' atLimit evs =
     (\<exists>pre tc n.
        evs = pre @ [Done (if atLimit \<and> chunks_after_last_start pre = []
                           then limit_message (maxIterations ag) (getSummary (collab ag) w')
                           else chunks_after_last_start pre) tc n]
        \<and> list_all (\<lambda>e. \<not> is_done e) pre)"


text \<open>Every array of a value has at most \<open>n\<close> elements.\<close>

function arrays_within :: "int \<Rightarrow> json \<Rightarrow> bool" where
  "arrays_within n (JArr xs) = (int (length xs) \<le> n \<and> list_all (arrays_within n) xs)"
| "arrays_within n (JObj kvs) = list_all (\<lambda>(key, v). arrays_within n v) kvs"
| "arrays_within n JNull = True"
| "arrays_within n (JBool b) = True"
| "arrays_within n (JNum i) = True"
| "arrays_within n (JStr s) = True"
  by pat_completeness auto
termination
  by (relation "measure (\<lambda>(n, x). size x)") (auto dest: size_item_lt size_field_lt)

text \<open>No object of a value has a property of one of the names.\<close>

function without_fields :: "string list \<Rightarrow> json \<Rightarrow> bool" where
  "without_fields names (JArr xs) = list_all (without_fields names) xs"
| "without_fields names (JObj kvs) =
     list_all (\<lambda>(key, v). key \<notin> set names \<and> without_fields names v) kvs"
| "without_fields names JNull = True"
| "without_fields names (JBool b) = True"
| "without_fields names (JNum i) = True"
| "without_fields names (JStr s) = True"
  by pat_completeness auto
termination
  by (relation "measure (\<lambda>(names, x). size x)") (auto dest: size_item_lt size_field_lt)

section \<open>Data for the examples\<close>

text \<open>The options \<open>{ maxTokens: n }\<close> and \<open>{ maxTokens: n, maxArrayLength: k }\<close>.\<close>

definition only_maxTokens :: "int \<Rightarrow> CompactOptions" where
  "only_maxTokens n =
     \<lparr>maxTokens = n, maxArrayLength = None, removeVerboseFields = None, truncateUrls = None,
      minify = None, query = None, queryContext = None\<rparr>"

definition capped :: "int \<Rightarrow> int \<Rightarrow> CompactOptions" where
  "capped n k = (only_maxTokens n)\<lparr>maxArrayLength := Some k\<rparr>"

text \<open>A price of one day, and six prices, newest first, the two newest of one day.\<close>

definition priced :: "string \<Rightarrow> json" where
  "priced d = JObj [(''date'', JStr d), (''close'', JNum 100)]"

definition tied_prices :: "json list" where
  "tied_prices =
     map priced [''2026-01-20'', ''2026-01-20'', ''2026-01-19'', ''2026-01-18'', ''2026-01-17'',
                 ''2026-01-16'']"

text \<open>An object whose \<open>image\<close> is a text of 60 characters that is not a URL.\<close>

definition captioned :: json where
  "captioned = JObj [(''image'', JStr (replicate 60 CHR ''a''))]"

text \<open>
  The array cap after \<open>i\<close> rounds of the loop of pass 5, each of which replaces the cap
  by \<open>Math.floor(cap * 0.7)\<close>.
\<close>

definition cap_after :: "nat \<Rightarrow> int \<Rightarrow> int" where
  "cap_after i arrayLimit = ((\<lambda>c. int (mul07_floor (nat c))) ^^ i) arrayLimit"

text \<open>The array of the numbers 1 to 10.\<close>

definition one_to_ten :: json where
  "one_to_ten = JArr (map JNum [1, 2, 3, 4, 5, 6, 7, 8, 9, 10])"

text \<open>The query \<open>What was AAPL's return over the past 2 years?\<close>\<close>

definition aapl_query :: string where
  "aapl_query = ''What was AAPL'' @ [CHR 0x27] @ ''s return over the past 2 years?''"

(*PROPS*)
section \<open>Properties of the query analyzer\<close>

lemma extractYears_twice:
  "extractYears ''Compare 2020 revenue with 2021; was 2020 better?'' = [2020, 2020, 2021]"
  by code_simp

text \<open>
  C9. The claim: for every query the \<open>years\<close> of the context returned by \<open>analyzeQuery\<close>
  hold no duplicate. The first loop of \<open>extractYears\<close> pushes every four-digit year it
  matches without the \<open>includes\<close> test that the fiscal-year loop makes, so a year written
  twice in the query is listed twice.
\<close>

theorem analyzeQuery_years_duplicate:
  "years (analyzeQuery rt ''Compare 2020 revenue with 2021; was 2020 better?'')
     = [2020, 2020, 2021]
   \<and> \<not> distinct (years (analyzeQuery rt ''Compare 2020 revenue with 2021; was 2020 better?''))"
  by (simp add: analyzeQuery_def Let_def extractYears_twice)

section \<open>Properties of the agent loop\<close>

lemma executeToolCall_tool_events:
  "executeToolCall ag name a q w = (evs, r, w') \<Longrightarrow> list_all is_tool_event evs"
  by (auto simp: executeToolCall_def tool_failed_def Let_def
           split: option.splits prod.splits sum.splits)

lemma executeToolCalls_tool_events:
  "executeToolCalls ag calls q w = (evs, r, w') \<Longrightarrow> list_all is_tool_event evs"
proof (induction calls arbitrary: w evs r w')
  case Nil
  then show ?case by simp
next
  case (Cons c calls)
  then show ?case
    by (auto simp: Let_def split: prod.splits dest: executeToolCall_tool_events)
qed

lemma collect_tool_events: "list_all is_tool_event evs \<Longrightarrow> collect acc evs = acc"
proof (induction evs arbitrary: acc)
  case Nil
  then show ?case by simp
next
  case (Cons e evs)
  then show ?case by (cases e) simp_all
qed

lemma collect_append: "collect acc (xs @ ys) = collect (collect acc xs) ys"
  by (induction acc xs rule: collect.induct) simp_all

lemma collect_chunks: "collect acc (map AnswerChunk cs) = acc @ concat cs"
  by (induction cs arbitrary: acc) simp_all

lemma fullAnswer_of_chunks: "fullAnswer_of (map AnswerChunk cs) = concat cs"
  by (induction cs) simp_all

lemma not_done_tool_events: "list_all is_tool_event evs \<Longrightarrow> list_all (\<lambda>e. \<not> is_done e) evs"
proof (induction evs)
  case Nil
  then show ?case by simp
next
  case (Cons e evs)
  then show ?case by (cases e) simp_all
qed

lemma not_done_chunks: "list_all (\<lambda>e. \<not> is_done e) (map AnswerChunk cs)"
  by (induction cs) simp_all

lemma generateFinalAnswer_events:
  "generateFinalAnswer ag q sms w = (evs, err, w')
     \<Longrightarrow> \<exists>cs. evs = AnswerStart # map AnswerChunk cs"
  by (auto simp: generateFinalAnswer_def split: prod.splits)

lemma ends_well_prepend:
  assumes "ends_well ag w' lim evs"
    and "list_all is_tool_event xs \<or> (\<exists>t. xs = [Thinking t]) \<or> xs = []"
  shows "ends_well ag w' lim (xs @ evs)"
proof -
  from assms(1) obtain pre tc n where
    e: "evs = pre @ [Done (if lim \<and> chunks_after_last_start pre = []
                           then limit_message (maxIterations ag) (getSummary (collab ag) w')
                           else chunks_after_last_start pre) tc n]"
    and nd: "list_all (\<lambda>e. \<not> is_done e) pre"
    unfolding ends_well_def by (elim exE conjE)
  have c: "collect [] xs = []" using assms(2) by (auto simp: collect_tool_events)
  have nd2: "list_all (\<lambda>e. \<not> is_done e) xs"
    using assms(2) by (auto simp: not_done_tool_events)
  have ch: "chunks_after_last_start (xs @ pre) = chunks_after_last_start pre"
    by (simp add: chunks_after_last_start_def collect_append c)
  show ?thesis
    unfolding ends_well_def
    by (intro exI[of _ "xs @ pre"] exI[of _ tc] exI[of _ n]) (simp add: e nd nd2 ch)
qed

lemma ends_well_answer:
  "ends_well ag w' lim
     ((AnswerStart # map AnswerChunk cs)
      @ [Done (if lim \<and> concat cs = []
               then limit_message (maxIterations ag) (getSummary (collab ag) w')
               else concat cs) tc n])"
proof -
  have "chunks_after_last_start (AnswerStart # map AnswerChunk cs) = concat cs"
    by (simp add: chunks_after_last_start_def collect_chunks)
  moreover have "list_all (\<lambda>e. \<not> is_done e) (AnswerStart # map AnswerChunk cs)"
    by (simp add: not_done_chunks)
  ultimately show ?thesis
    unfolding ends_well_def
    by (intro exI[of _ "AnswerStart # map AnswerChunk cs"] exI[of _ tc] exI[of _ n]) simp
qed

lemma answer_in_loop_ends:
  assumes "answer_in_loop ag q sms calls n w = (evs, Returned, w')"
  shows "ends_well ag w' False evs"
proof -
  obtain es err w1 where g: "generateFinalAnswer ag q sms w = (es, err, w1)"
    by (cases "generateFinalAnswer ag q sms w") auto
  then obtain cs where es: "es = AnswerStart # map AnswerChunk cs"
    by (auto dest: generateFinalAnswer_events)
  from assms g have "evs = es @ [Done (fullAnswer_of es) calls n]" and "w' = w1"
    by (auto simp: answer_in_loop_def split: option.splits)
  then show ?thesis
    using ends_well_answer[of ag w' False cs calls n] es
    by (simp add: fullAnswer_of_chunks)
qed

lemma answer_at_limit_ends:
  assumes "answer_at_limit ag q sms calls n w = (evs, Returned, w')"
  shows "ends_well ag w' True evs"
proof -
  obtain es err w1 where g: "generateFinalAnswer ag q sms w = (es, err, w1)"
    by (cases "generateFinalAnswer ag q sms w") auto
  then obtain cs where es: "es = AnswerStart # map AnswerChunk cs"
    by (auto dest: generateFinalAnswer_events)
  define a where "a = (if fullAnswer_of es \<noteq> [] then fullAnswer_of es
                       else limit_message (maxIterations ag) (getSummary (collab ag) w1))"
  from assms g have e: "evs = es @ [Done a calls n]" and w: "w' = w1"
    by (auto simp: answer_at_limit_def a_def split: option.splits)
  have "a = (if True \<and> concat cs = []
             then limit_message (maxIterations ag) (getSummary (collab ag) w')
             else concat cs)"
    using es w by (simp add: a_def fullAnswer_of_chunks)
  with ends_well_answer[of ag w' True cs calls n] show ?thesis using e es by simp
qed

text \<open>The loop invariant: a run that returns ends well.\<close>

lemma agent_loop_ends:
  "agent_loop ag q it calls sms prompt w = (evs, Returned, w')
     \<Longrightarrow> ends_well ag w' (reaches_limit ag q it prompt w) evs"
proof (induction ag q it calls sms prompt w arbitrary: evs w' rule: agent_loop.induct)
  case (1 ag q iteration allToolCalls allSummaries currentPrompt w)
  note step = agent_loop.simps[of ag q iteration allToolCalls allSummaries currentPrompt w]
  note lim = reaches_limit.simps[of ag q iteration currentPrompt w]
  show ?case
  proof (cases "iteration < maxIterations ag")
    case False
    then have l: "reaches_limit ag q iteration currentPrompt w = True"
      by (subst lim) simp
    from False "1.prems"(1) have
      "answer_at_limit ag q allSummaries allToolCalls iteration w = (evs, Returned, w')"
      by (simp add: step)
    then show ?thesis unfolding l by (rule answer_at_limit_ends)
  next
    case True
    obtain r w1 where cm: "callModel ag currentPrompt w = (r, w1)"
      by (cases "callModel ag currentPrompt w") auto
    show ?thesis
    proof (cases r)
      case (Inl e)
      with True cm "1.prems" show ?thesis by (simp add: step)
    next
      case (Inr response)
      define responseText where "responseText = extractTextContent response"
      define thinks where "thinks = (responseText \<noteq> [] \<and> hasToolCalls response)"
      define w2 where "w2 = (if thinks then addThinking (collab ag) responseText w1 else w1)"
      define evs0 where "evs0 = (if thinks then [Thinking responseText] else [])"
      have evs0: "list_all is_tool_event evs0 \<or> (\<exists>t. evs0 = [Thinking t]) \<or> evs0 = []"
        by (simp add: evs0_def)
      show ?thesis
      proof (cases "hasToolCalls response")
        case False
        then have e0: "evs0 = []" and w21: "w2 = w1"
          by (simp_all add: evs0_def w2_def thinks_def)
        have l: "reaches_limit ag q iteration currentPrompt w = False"
          by (subst lim) (use True cm Inr False in \<open>simp add: Let_def\<close>)
        show ?thesis
        proof (cases "length allSummaries = 0 \<and> responseText \<noteq> []")
          case direct: True
          have "agent_loop ag q iteration allToolCalls allSummaries currentPrompt w
                  = ([AnswerStart, AnswerChunk responseText, Done responseText [] (iteration + 1)],
                     Returned, w1)"
            unfolding step using True cm Inr False direct
            by (simp add: Let_def responseText_def thinks_def evs0_def w2_def)
          with "1.prems"(1)
          have "evs = [AnswerStart, AnswerChunk responseText] @ [Done responseText [] (iteration + 1)]"
            by simp
          moreover have "chunks_after_last_start [AnswerStart, AnswerChunk responseText] = responseText"
            by (simp add: chunks_after_last_start_def)
          ultimately show ?thesis
            unfolding ends_well_def l
            by (intro exI[of _ "[AnswerStart, AnswerChunk responseText]"]
                      exI[of _ "[]"] exI[of _ "iteration + 1"]) simp
        next
          case nodirect: False
          obtain es out w3 where ail:
            "answer_in_loop ag q allSummaries allToolCalls (iteration + 1) w2 = (es, out, w3)"
            by (cases "answer_in_loop ag q allSummaries allToolCalls (iteration + 1) w2") auto
          have "agent_loop ag q iteration allToolCalls allSummaries currentPrompt w
                  = (es, out, w3)"
            unfolding step using True cm Inr False nodirect ail
            by (auto simp: Let_def responseText_def thinks_def evs0_def w2_def)
          with "1.prems"(1)
          have "evs = es" and "out = Returned" and "w' = w3"
            by simp_all
          with ail have "answer_in_loop ag q allSummaries allToolCalls (iteration + 1) w2
                           = (evs, Returned, w')"
            by simp
          then show ?thesis unfolding l by (rule answer_in_loop_ends)
        qed
      next
        case has: True
        obtain es res w3 where etc:
          "executeToolCalls ag (tool_calls response) q w2 = (es, res, w3)"
          by (cases "executeToolCalls ag (tool_calls response) q w2") auto
        define w4 where "w4 = foldl (\<lambda>x entry. addToolEntry (collab ag) entry x) w3
                                  (promptEntries res)"
        define prompt' where "prompt' = buildIterationPrompt q (getToolSummaries (collab ag) w4)"
        obtain es' out w5 where rec:
          "agent_loop ag q (iteration + 1) (allToolCalls @ records res)
             (allSummaries @ summaries res) prompt' w4 = (es', out, w5)"
          by (cases "agent_loop ag q (iteration + 1) (allToolCalls @ records res)
             (allSummaries @ summaries res) prompt' w4") auto
        have "agent_loop ag q iteration allToolCalls allSummaries currentPrompt w
                = (evs0 @ es @ es', out, w5)"
          using True cm Inr has etc rec
          unfolding step w4_def w2_def evs0_def thinks_def responseText_def prompt'_def
          by (auto simp: Let_def)
        with "1.prems"(1)
        have e: "evs = evs0 @ es @ es'" and o: "out = Returned" and w: "w' = w5"
          by simp_all
        have l: "reaches_limit ag q iteration currentPrompt w
                   = reaches_limit ag q (iteration + 1) prompt' w4"
          using True cm Inr has etc
          unfolding lim w4_def w2_def thinks_def responseText_def prompt'_def
          by (auto simp: Let_def)
        have "ends_well ag w5 (reaches_limit ag q (iteration + 1) prompt' w4) es'"
          unfolding prompt'_def
          by (rule "1.IH"[of r w1 response responseText thinks w2 evs0 es "(res, w3)" res w3 w4
                             es' w5])
             (use True cm Inr has etc rec o in
               \<open>simp_all add: responseText_def thinks_def w2_def evs0_def w4_def prompt'_def\<close>)
        then have "ends_well ag w5 (reaches_limit ag q (iteration + 1) prompt' w4) (es @ es')"
          using ends_well_prepend[of ag w5 _ es' es] executeToolCalls_tool_events[OF etc] by simp
        then have "ends_well ag w5 (reaches_limit ag q (iteration + 1) prompt' w4)
                     (evs0 @ es @ es')"
          using ends_well_prepend[of ag w5 _ "es @ es'" evs0] evs0 by simp
        with e w l show ?thesis by simp
      qed
    qed
  qed
qed












subsection \<open>The runs of the examples\<close>

lemma direct_run:
  "run_agent (scripted_agent 3) ''hi'' None direct_world
     = ([AnswerStart, AnswerChunk ''Hello!'', Done ''Hello!'' [] 1], Returned, world0)"
  by code_simp

lemma unknown_tool_run:
  "run_agent (scripted_agent 1) ''hi'' None unknown_tool_world
     = ([ToolStart ''web_search'' [], ToolError ''web_search'' (tool_not_found ''web_search''),
         AnswerStart,
         Done ''Reached maximum iterations (1). 0 contexts''
           [(''web_search'', [], ''Error: '' @ tool_not_found ''web_search'')] 1],
        Returned,
        world0\<lparr>scratch := [''- web_search [FAILED]: '' @ tool_not_found ''web_search'']\<rparr>)"
  by code_simp


subsection \<open>The guard against an agent without tools\<close>

text \<open>
  C8. A run of an agent with no tool yields one event, the \<open>done\<close> event with the fixed
  message, no tool call and 0 iterations, and returns; it calls no collaborator (the
  world is unchanged).
\<close>

theorem run_agent_no_tools:
  assumes "tools ag = []"
  shows "run_agent ag q history w
           = ([Done ''No tools available. Please check your API key configuration.'' [] 0],
              Returned, w)"
  using assms by (simp add: run_agent_def no_tools_message_def)

theorem run_agent_no_tools_witness:
  "run_agent ((scripted_agent 3)\<lparr>tools := []\<rparr>) ''hi'' None direct_world
     = ([Done ''No tools available. Please check your API key configuration.'' [] 0],
        Returned, direct_world)"
  using run_agent_no_tools [of "(scripted_agent 3)\<lparr>tools := []\<rparr>" "''hi''" None direct_world]
  by simp

subsection \<open>The answer of the \<open>done\<close> event\<close>

text \<open>
  C1, as claimed: the answer of the \<open>done\<close> event is the concatenation of the chunks after
  the most recent \<open>answer_start\<close>. It is not when the run ends at the iteration bound and
  the answer stream yields no chunk: the answer is then the fixed message about the
  bound, and the concatenation is empty.
\<close>

theorem done_answer_at_limit:
  "fst (run_agent (scripted_agent 1) ''hi'' None unknown_tool_world)
     = [ToolStart ''web_search'' [], ToolError ''web_search'' (tool_not_found ''web_search''),
        AnswerStart]
       @ [Done ''Reached maximum iterations (1). 0 contexts''
            [(''web_search'', [], ''Error: '' @ tool_not_found ''web_search'')] 1]
   \<and> chunks_after_last_start
         [ToolStart ''web_search'' [], ToolError ''web_search'' (tool_not_found ''web_search''),
          AnswerStart] = []"
  by code_simp

text \<open>
  C1, amended. A run that returns ends with its only \<open>done\<close> event, and the answer of
  that event is determined by the events before it: for an agent without tools it is
  the fixed message of the guard (and no other event is yielded); when the loop ended at
  its iteration bound, every response up to the bound having asked for tools, and the
  concatenation of the chunks after the most recent \<open>answer_start\<close> is empty, it is
  \<open>Reached maximum iterations (N). \<close> followed by the summary of the context manager; in
  every other case (also when the answer is streamed inside the loop, at the last
  iteration, and the stream is empty) it is that concatenation.
\<close>

theorem run_agent_done_answer:
  assumes "run_agent ag q history w = (evs, Returned, w')"
  shows "\<exists>pre toolCalls iterations.
           evs = pre @ [Done (if tools ag = []
                              then ''No tools available. Please check your API key configuration.''
                              else if reaches_limit ag q 0 (buildInitialPrompt q history)
                                        (newScratchpad (collab ag) q w)
                                      \<and> chunks_after_last_start pre = []
                              then ''Reached maximum iterations ('' @ show_nat (maxIterations ag)
                                   @ ''). '' @ getSummary (collab ag) w'
                              else chunks_after_last_start pre)
                          toolCalls iterations]
           \<and> list_all (\<lambda>e. \<not> is_done e) pre
           \<and> (tools ag = [] \<longrightarrow> pre = [])"
proof -
  define lim where "lim = reaches_limit ag q 0 (buildInitialPrompt q history)
                            (newScratchpad (collab ag) q w)"
  have "\<exists>pre toolCalls iterations.
           evs = pre @ [Done (if tools ag = [] then no_tools_message
                              else if lim \<and> chunks_after_last_start pre = []
                              then limit_message (maxIterations ag) (getSummary (collab ag) w')
                              else chunks_after_last_start pre)
                          toolCalls iterations]
           \<and> list_all (\<lambda>e. \<not> is_done e) pre
           \<and> (tools ag = [] \<longrightarrow> pre = [])"
  proof (cases "tools ag = []")
    case True
    with assms have "evs = [] @ [Done no_tools_message [] 0]"
      by (simp add: run_agent_def)
    with True show ?thesis
      by (intro exI[of _ "[]"] exI[of _ "[]"] exI[of _ 0]) simp
  next
    case False
    with assms have "agent_loop ag q 0 [] [] (buildInitialPrompt q history)
                       (newScratchpad (collab ag) q w) = (evs, Returned, w')"
      by (simp add: run_agent_def)
    then have "ends_well ag w' lim evs" unfolding lim_def by (rule agent_loop_ends)
    then obtain pre tc n where
      "evs = pre @ [Done (if lim \<and> chunks_after_last_start pre = []
                          then limit_message (maxIterations ag) (getSummary (collab ag) w')
                          else chunks_after_last_start pre) tc n]"
      and "list_all (\<lambda>e. \<not> is_done e) pre"
      unfolding ends_well_def by (elim exE conjE)
    with False show ?thesis
      by (intro exI[of _ pre] exI[of _ tc] exI[of _ n]) simp
  qed
  then show ?thesis unfolding limit_message_def no_tools_message_def lim_def .
qed

lemma silent_run:
  "run_agent (scripted_agent 1) ''hi'' None silent_world
     = ([AnswerStart, Done [] [] 1], Returned, world0)"
  by code_simp

lemma silent_run_in_loop:
  "\<not> reaches_limit (scripted_agent 1) ''hi'' 0 (buildInitialPrompt ''hi'' None)
       (newScratchpad (collab (scripted_agent 1)) ''hi'' silent_world)"
  by code_simp

lemma unknown_tool_run_at_limit:
  "reaches_limit (scripted_agent 1) ''hi'' 0 (buildInitialPrompt ''hi'' None)
     (newScratchpad (collab (scripted_agent 1)) ''hi'' unknown_tool_world)"
  by code_simp

text \<open>
  Three runs: a direct answer; the bound reached with an empty answer stream; and, with
  the same events about the answer, an empty answer streamed inside the loop.
\<close>

theorem run_agent_done_answer_witness:
  "(\<exists>pre toolCalls iterations.
      [AnswerStart, AnswerChunk ''Hello!'', Done ''Hello!'' [] 1]
        = pre @ [Done (if tools (scripted_agent 3) = []
                       then ''No tools available. Please check your API key configuration.''
                       else if reaches_limit (scripted_agent 3) ''hi'' 0
                                 (buildInitialPrompt ''hi'' None)
                                 (newScratchpad (collab (scripted_agent 3)) ''hi'' direct_world)
                               \<and> chunks_after_last_start pre = []
                       then ''Reached maximum iterations (''
                            @ show_nat (maxIterations (scripted_agent 3))
                            @ ''). '' @ getSummary (collab (scripted_agent 3)) world0
                       else chunks_after_last_start pre)
                   toolCalls iterations]
      \<and> list_all (\<lambda>e. \<not> is_done e) pre
      \<and> (tools (scripted_agent 3) = [] \<longrightarrow> pre = []))
   \<and> (\<exists>pre toolCalls iterations.
      [ToolStart ''web_search'' [], ToolError ''web_search'' (tool_not_found ''web_search''),
       AnswerStart,
       Done ''Reached maximum iterations (1). 0 contexts''
         [(''web_search'', [], ''Error: '' @ tool_not_found ''web_search'')] 1]
        = pre @ [Done (if tools (scripted_agent 1) = []
                       then ''No tools available. Please check your API key configuration.''
                       else if reaches_limit (scripted_agent 1) ''hi'' 0
                                 (buildInitialPrompt ''hi'' None)
                                 (newScratchpad (collab (scripted_agent 1)) ''hi''
                                    unknown_tool_world)
                               \<and> chunks_after_last_start pre = []
                       then ''Reached maximum iterations (''
                            @ show_nat (maxIterations (scripted_agent 1))
                            @ ''). ''
                            @ getSummary (collab (scripted_agent 1))
                                (world0\<lparr>scratch := [''- web_search [FAILED]: ''
                                                       @ tool_not_found ''web_search'']\<rparr>)
                       else chunks_after_last_start pre)
                   toolCalls iterations]
      \<and> list_all (\<lambda>e. \<not> is_done e) pre
      \<and> (tools (scripted_agent 1) = [] \<longrightarrow> pre = []))
   \<and> reaches_limit (scripted_agent 1) ''hi'' 0 (buildInitialPrompt ''hi'' None)
       (newScratchpad (collab (scripted_agent 1)) ''hi'' unknown_tool_world)
   \<and> (\<exists>pre toolCalls iterations.
      [AnswerStart, Done [] [] 1]
        = pre @ [Done (if tools (scripted_agent 1) = []
                       then ''No tools available. Please check your API key configuration.''
                       else if reaches_limit (scripted_agent 1) ''hi'' 0
                                 (buildInitialPrompt ''hi'' None)
                                 (newScratchpad (collab (scripted_agent 1)) ''hi'' silent_world)
                               \<and> chunks_after_last_start pre = []
                       then ''Reached maximum iterations (''
                            @ show_nat (maxIterations (scripted_agent 1))
                            @ ''). '' @ getSummary (collab (scripted_agent 1)) world0
                       else chunks_after_last_start pre)
                   toolCalls iterations]
      \<and> list_all (\<lambda>e. \<not> is_done e) pre
      \<and> (tools (scripted_agent 1) = [] \<longrightarrow> pre = []))
   \<and> \<not> reaches_limit (scripted_agent 1) ''hi'' 0 (buildInitialPrompt ''hi'' None)
         (newScratchpad (collab (scripted_agent 1)) ''hi'' silent_world)"
  by (intro conjI run_agent_done_answer [OF direct_run] run_agent_done_answer [OF unknown_tool_run]
        run_agent_done_answer [OF silent_run] silent_run_in_loop unknown_tool_run_at_limit)

subsection \<open>The events of a tool call\<close>

text \<open>
  C2. The claim: each \<open>tool_start\<close> is followed by exactly one of \<open>tool_end\<close> and
  \<open>tool_error\<close> of the same tool before the next \<open>tool_start\<close>. The \<open>try\<close> block of
  \<open>executeToolCall\<close> also holds the summarizing call, which comes after \<open>tool_end\<close> is
  yielded: when the tool succeeds and the summarizing call throws, the one call yields
  \<open>tool_start\<close>, \<open>tool_end\<close> and \<open>tool_error\<close>, and its record holds the error in place of
  the result.
\<close>

theorem tool_end_then_tool_error:
  "fst (run_agent (scripted_agent 1) ''hi'' None summarizer_down_world)
     = [ToolStart ''financial_search'' [],
        ToolEnd ''financial_search'' [] ''{}'' 120,
        ToolError ''financial_search'' ''rate limit exceeded'',
        AnswerStart, AnswerChunk ''No data.'',
        Done ''No data.'' [(''financial_search'', [], ''Error: rate limit exceeded'')] 1]
   \<and> \<not> paired (filter is_tool_event
                  (fst (run_agent (scripted_agent 1) ''hi'' None summarizer_down_world)))"
  by code_simp

subsection \<open>Failed tool calls\<close>










section \<open>Properties of the context compactor\<close>

subsection \<open>The token estimate and the hard truncation\<close>

lemma estimate_le_iff:
  "int (estimateJsonTokens s) \<le> m \<longleftrightarrow> 0 \<le> m \<and> (s = [] \<or> 2 * int (length s) \<le> 7 * m)"
proof (cases "s = []")
  case True
  then show ?thesis by (simp add: estimateJsonTokens_def estimateTokens_def)
next
  case False
  then have pos: "0 < length s" by simp
  have "int ((2 * length s + 6) div 7) \<le> m \<longleftrightarrow> 0 \<le> m \<and> 2 * int (length s) \<le> 7 * m"
    using pos by (simp add: zdiv_int) linarith
  with False show ?thesis by (simp add: estimateJsonTokens_def estimateTokens_def)
qed

lemma length_truncation_marker: "length truncation_marker = 14"
  by (simp add: truncation_marker_def)

lemma truncation_marker_nonempty: "truncation_marker \<noteq> []"
  by (simp add: truncation_marker_def)

lemma js_slice_prefix: "0 \<le> k \<Longrightarrow> js_slice s 0 k = take (nat k) s"
  by (simp add: js_slice_def slice_index_def Let_def min_def)

lemma estimate_truncated:
  assumes "0 \<le> m" and "7 * m < 2 * int (length s)"
  shows "int (estimateJsonTokens (take (nat ((7 * m) div 2)) s @ truncation_marker)) = m + 4"
proof -
  define k where "k = nat ((7 * m) div 2)"
  have k: "int k = (7 * m) div 2" using assms(1) by (simp add: k_def)
  have "int k \<le> int (length s)" using assms k by linarith
  then have len: "length (take k s @ truncation_marker) = k + 14"
    by (simp add: length_truncation_marker)
  have ne: "take k s @ truncation_marker \<noteq> []" using truncation_marker_nonempty by simp
  have "int ((2 * (k + 14) + 6) div 7) = m + 4"
    using k assms(1) by (simp add: zdiv_int)
  moreover have "estimateJsonTokens (take k s @ truncation_marker)
                   = (2 * length (take k s @ truncation_marker) + 6) div 7"
    unfolding estimateJsonTokens_def estimateTokens_def using ne by (simp only: if_False content_type.case)
  ultimately show ?thesis
    unfolding k_def[symmetric] len by simp
qed

lemma truncateString_cases:
  assumes "0 \<le> m"
  shows "truncateString s (7 * m)
           = (if 2 * int (length s) \<le> 7 * m then s
              else take (nat ((7 * m) div 2)) s @ truncation_marker)"
  using assms by (simp add: truncateString_def halve_towards_zero_def js_slice_prefix)

lemma hard_truncate_cases:
  assumes "0 \<le> maxTokens options"
  shows "hard_truncate options t
           = (if int (estimateJsonTokens t) \<le> maxTokens options then t
              else take (nat ((7 * maxTokens options) div 2)) t @ truncation_marker)"
  using assms by (simp add: hard_truncate_def js_slice_prefix)

text \<open>
  The loop of pass 5 ends with the serialization at some array limit; that
  serialization fits the budget, or the limit is 5 or less.
\<close>

lemma shrink_result:
  "result = compact_at rt options ctx parsed arrayLimit \<Longrightarrow>
     \<exists>l. l \<le> arrayLimit
         \<and> shrink rt options ctx parsed result arrayLimit = compact_at rt options ctx parsed l
         \<and> (int (estimateJsonTokens (compact_at rt options ctx parsed l)) \<le> maxTokens options
            \<or> l \<le> 5)"
proof (induction rt options ctx parsed result arrayLimit rule: shrink.induct)
  case (1 rt options ctx parsed result arrayLimit)
  note step = shrink.simps[of rt options ctx parsed result arrayLimit]
  show ?case
  proof (cases "maxTokens options < int (estimateJsonTokens result) \<and> 5 < arrayLimit")
    case False
    then have "shrink rt options ctx parsed result arrayLimit = result"
      by (subst step) (simp only: if_False)
    with False "1.prems" show ?thesis
      by (intro exI[of _ arrayLimit]) auto
  next
    case True
    define l' where "l' = int (mul07_floor (nat arrayLimit))"
    have less: "l' < arrayLimit"
      using True mul07_floor_less[of "nat arrayLimit"] by (simp add: l'_def)
    have s: "shrink rt options ctx parsed result arrayLimit
               = shrink rt options ctx parsed (compact_at rt options ctx parsed l') l'"
      unfolding step using True by (simp add: Let_def l'_def)
    have "\<exists>l. l \<le> l'
         \<and> shrink rt options ctx parsed (compact_at rt options ctx parsed l') l'
             = compact_at rt options ctx parsed l
         \<and> (int (estimateJsonTokens (compact_at rt options ctx parsed l)) \<le> maxTokens options
            \<or> l \<le> 5)"
      by (rule "1.IH"[OF True l'_def]) (rule refl)
    then obtain l where "l \<le> l'"
      and "shrink rt options ctx parsed (compact_at rt options ctx parsed l') l'
             = compact_at rt options ctx parsed l"
      and "int (estimateJsonTokens (compact_at rt options ctx parsed l)) \<le> maxTokens options
            \<or> l \<le> 5"
      by (elim exE conjE)
    with s less show ?thesis
      by (intro exI[of _ l]) simp
  qed
qed

lemma compact_parsed_bound:
  assumes "0 \<le> maxTokens options"
  shows "int (estimateJsonTokens (compact_parsed rt options parsed)) \<le> maxTokens options
         \<or> (int (estimateJsonTokens (compact_parsed rt options parsed)) = maxTokens options + 4
            \<and> (\<exists>l. l \<le> 5
                  \<and> maxTokens options
                       < int (estimateJsonTokens
                                (compact_at rt options (context_of rt options) parsed l))
                  \<and> compact_parsed rt options parsed
                      = take (nat ((7 * maxTokens options) div 2))
                          (compact_at rt options (context_of rt options) parsed l)
                        @ truncation_marker))"
proof -
  define ctx where "ctx = context_of rt options"
  define n where "n = opt_maxArrayLength options"
  from shrink_result[where rt = rt and options = options and ctx = ctx and parsed = parsed
                       and arrayLimit = n, OF refl]
  obtain l where sh: "shrink rt options ctx parsed (compact_at rt options ctx parsed n) n
                        = compact_at rt options ctx parsed l"
    and fit: "int (estimateJsonTokens (compact_at rt options ctx parsed l)) \<le> maxTokens options
              \<or> l \<le> 5"
    by (elim exE conjE)
  define t where "t = compact_at rt options ctx parsed l"
  have cp: "compact_parsed rt options parsed = hard_truncate options t"
    by (simp add: compact_parsed_def Let_def ctx_def[symmetric] n_def[symmetric] sh t_def)
  show ?thesis
  proof (cases "int (estimateJsonTokens t) \<le> maxTokens options")
    case True
    then show ?thesis by (simp add: cp hard_truncate_cases[OF assms])
  next
    case False
    then have l5: "l \<le> 5" using fit by (simp add: t_def)
    from False have long: "7 * maxTokens options < 2 * int (length t)"
      using assms by (auto simp: estimate_le_iff)
    have r: "compact_parsed rt options parsed
               = take (nat ((7 * maxTokens options) div 2)) t @ truncation_marker"
      using False by (simp add: cp hard_truncate_cases[OF assms])
    have "int (estimateJsonTokens (compact_parsed rt options parsed)) = maxTokens options + 4"
      unfolding r by (rule estimate_truncated[OF assms long])
    moreover have "\<exists>l. l \<le> 5
                  \<and> maxTokens options
                       < int (estimateJsonTokens
                                (compact_at rt options (context_of rt options) parsed l))
                  \<and> compact_parsed rt options parsed
                      = take (nat ((7 * maxTokens options) div 2))
                          (compact_at rt options (context_of rt options) parsed l)
                        @ truncation_marker"
      using l5 False r unfolding t_def ctx_def by (intro exI[of _ l]) simp
    ultimately show ?thesis by (intro disjI2 conjI)
  qed
qed

lemma truncateString_bound:
  assumes "0 \<le> m"
  shows "int (estimateJsonTokens (truncateString s (7 * m))) \<le> m
         \<or> (int (estimateJsonTokens (truncateString s (7 * m))) = m + 4
            \<and> m < int (estimateJsonTokens s)
            \<and> truncateString s (7 * m) = take (nat ((7 * m) div 2)) s @ truncation_marker)"
proof (cases "2 * int (length s) \<le> 7 * m")
  case True
  then show ?thesis using assms by (simp add: truncateString_cases estimate_le_iff)
next
  case False
  then have long: "7 * m < 2 * int (length s)" by simp
  have r: "truncateString s (7 * m) = take (nat ((7 * m) div 2)) s @ truncation_marker"
    using False assms by (simp add: truncateString_cases)
  have "int (estimateJsonTokens (truncateString s (7 * m))) = m + 4"
    unfolding r by (rule estimate_truncated[OF assms long])
  moreover have "m < int (estimateJsonTokens s)"
    using long assms estimate_le_iff[of s m] by auto
  ultimately show ?thesis using r by (intro disjI2 conjI)
qed

subsection \<open>A string that is not JSON\<close>

text \<open>
  C5. \<open>compactJson\<close> is a total function of its input (every pass terminates, and no
  branch throws). A string that does not parse is returned as \<open>truncateString\<close> leaves it:
  unchanged when its length is at most \<open>maxTokens * 3.5\<close>, and cut to that many
  characters (rounded down) with the marker appended when it is longer; the query, the
  array limit and the other options have no part in the result.
\<close>

theorem compactJson_not_json:
  assumes "json_parse rt s = None"
  shows "compactJson rt (JStr s) options = truncateString s (7 * maxTokens options)
         \<and> (0 \<le> maxTokens options \<longrightarrow>
              compactJson rt (JStr s) options
                = (if 2 * int (length s) \<le> 7 * maxTokens options then s
                   else take (nat ((7 * maxTokens options) div 2)) s @ ''...[truncated]''))"
proof -
  have a: "compactJson rt (JStr s) options = truncateString s (7 * maxTokens options)"
    using assms by (simp add: compactJson_def)
  have "0 \<le> maxTokens options \<longrightarrow>
              compactJson rt (JStr s) options
                = (if 2 * int (length s) \<le> 7 * maxTokens options then s
                   else take (nat ((7 * maxTokens options) div 2)) s @ truncation_marker)"
    unfolding a by (rule impI) (rule truncateString_cases)
  then have "0 \<le> maxTokens options \<longrightarrow>
              compactJson rt (JStr s) options
                = (if 2 * int (length s) \<le> 7 * maxTokens options then s
                   else take (nat ((7 * maxTokens options) div 2)) s @ ''...[truncated]'')"
    unfolding truncation_marker_def .
  with a show ?thesis by (rule conjI)
qed

lemma not_json: "json_parse utc_runtime ''not valid json'' = None"
  by code_simp

theorem compactJson_not_json_witness:
  "compactJson utc_runtime (JStr ''not valid json'') (only_maxTokens 2) = ''not val...[truncated]''
   \<and> compactJson utc_runtime (JStr ''not valid json'') (only_maxTokens 4) = ''not valid json''"
proof -
  have m2: "maxTokens (only_maxTokens 2) = 2" and m4: "maxTokens (only_maxTokens 4) = 4"
    by (simp_all add: only_maxTokens_def)
  from compactJson_not_json[OF not_json, of "only_maxTokens 2", THEN conjunct2]
  have "compactJson utc_runtime (JStr ''not valid json'') (only_maxTokens 2)
          = ''not val...[truncated]''"
    unfolding m2 by simp
  moreover
  from compactJson_not_json[OF not_json, of "only_maxTokens 4", THEN conjunct2]
  have "compactJson utc_runtime (JStr ''not valid json'') (only_maxTokens 4)
          = ''not valid json''"
    unfolding m4 by simp
  ultimately show ?thesis by (rule conjI)
qed

subsection \<open>The token budget\<close>

lemma cap_after_0: "cap_after 0 l = l"
  by (simp add: cap_after_def)

lemma cap_after_Suc: "cap_after (Suc i) l = cap_after i (int (mul07_floor (nat l)))"
  unfolding cap_after_def by (simp only: funpow_Suc_right o_apply)

text \<open>
  The loop of pass 5 runs some number of rounds, each from a serialization over the
  budget at a cap above 5, and ends with the serialization at the cap then reached,
  which fits the budget unless the cap is 5 or less.
\<close>

lemma shrink_rounds:
  "result = compact_at rt options ctx parsed arrayLimit \<Longrightarrow>
     \<exists>i. (\<forall>j<i. maxTokens options
                    < int (estimateJsonTokens
                             (compact_at rt options ctx parsed (cap_after j arrayLimit)))
                 \<and> 5 < cap_after j arrayLimit)
        \<and> (int (estimateJsonTokens (compact_at rt options ctx parsed (cap_after i arrayLimit)))
              \<le> maxTokens options
            \<or> cap_after i arrayLimit \<le> 5)
        \<and> shrink rt options ctx parsed result arrayLimit
            = compact_at rt options ctx parsed (cap_after i arrayLimit)"
proof (induction rt options ctx parsed result arrayLimit rule: shrink.induct)
  case (1 rt options ctx parsed result arrayLimit)
  note step = shrink.simps[of rt options ctx parsed result arrayLimit]
  show ?case
  proof (cases "maxTokens options < int (estimateJsonTokens result) \<and> 5 < arrayLimit")
    case False
    then have "shrink rt options ctx parsed result arrayLimit = result"
      by (subst step) (simp only: if_False)
    with False "1.prems" show ?thesis
      by (intro exI[of _ 0]) (auto simp: cap_after_0)
  next
    case True
    define l' where "l' = int (mul07_floor (nat arrayLimit))"
    have s: "shrink rt options ctx parsed result arrayLimit
               = shrink rt options ctx parsed (compact_at rt options ctx parsed l') l'"
      unfolding step using True by (simp add: Let_def l'_def)
    have "\<exists>i. (\<forall>j<i. maxTokens options
                    < int (estimateJsonTokens (compact_at rt options ctx parsed (cap_after j l')))
                 \<and> 5 < cap_after j l')
        \<and> (int (estimateJsonTokens (compact_at rt options ctx parsed (cap_after i l')))
              \<le> maxTokens options
            \<or> cap_after i l' \<le> 5)
        \<and> shrink rt options ctx parsed (compact_at rt options ctx parsed l') l'
            = compact_at rt options ctx parsed (cap_after i l')"
      by (rule "1.IH"[OF True l'_def]) (rule refl)
    then obtain i where
      before: "\<forall>j<i. maxTokens options
                    < int (estimateJsonTokens (compact_at rt options ctx parsed (cap_after j l')))
                 \<and> 5 < cap_after j l'"
      and last: "int (estimateJsonTokens (compact_at rt options ctx parsed (cap_after i l')))
              \<le> maxTokens options
            \<or> cap_after i l' \<le> 5"
      and sh: "shrink rt options ctx parsed (compact_at rt options ctx parsed l') l'
            = compact_at rt options ctx parsed (cap_after i l')"
      by (elim exE conjE)
    have "\<forall>j<Suc i. maxTokens options
                    < int (estimateJsonTokens
                             (compact_at rt options ctx parsed (cap_after j arrayLimit)))
                 \<and> 5 < cap_after j arrayLimit"
    proof (intro allI impI)
      fix j assume "j < Suc i"
      show "maxTokens options
              < int (estimateJsonTokens
                       (compact_at rt options ctx parsed (cap_after j arrayLimit)))
            \<and> 5 < cap_after j arrayLimit"
      proof (cases j)
        case 0
        with True "1.prems" show ?thesis by (simp add: cap_after_0)
      next
        case (Suc k)
        with \<open>j < Suc i\<close> have "k < i" by simp
        with before Suc show ?thesis by (simp add: cap_after_Suc l'_def)
      qed
    qed
    with last sh s show ?thesis
      by (intro exI[of _ "Suc i"]) (simp add: cap_after_Suc l'_def)
  qed
qed

text \<open>What \<open>compactJson\<close> returns from the last serialization \<open>t\<close>.\<close>

lemma final_safety:
  assumes "0 \<le> maxTokens options"
  shows "hard_truncate options t
           = (if int (estimateJsonTokens t) \<le> maxTokens options then t
              else take (nat ((7 * maxTokens options) div 2)) t @ truncation_marker)
         \<and> int (estimateJsonTokens (hard_truncate options t))
             = (if int (estimateJsonTokens t) \<le> maxTokens options
                then int (estimateJsonTokens t) else maxTokens options + 4)"
proof (cases "int (estimateJsonTokens t) \<le> maxTokens options")
  case True
  then show ?thesis by (simp add: hard_truncate_cases[OF assms])
next
  case False
  then have long: "7 * maxTokens options < 2 * int (length t)"
    using assms by (auto simp: estimate_le_iff)
  from False estimate_truncated[OF assms long] show ?thesis
    by (simp add: hard_truncate_cases[OF assms])
qed

lemma truncateString_safety:
  assumes "0 \<le> m"
  shows "truncateString s (7 * m)
           = (if int (estimateJsonTokens s) \<le> m then s
              else take (nat ((7 * m) div 2)) s @ truncation_marker)
         \<and> int (estimateJsonTokens (truncateString s (7 * m)))
             = (if int (estimateJsonTokens s) \<le> m then int (estimateJsonTokens s) else m + 4)"
proof (cases "int (estimateJsonTokens s) \<le> m")
  case True
  then have "2 * int (length s) \<le> 7 * m" using assms by (auto simp: estimate_le_iff)
  with True show ?thesis by (simp add: truncateString_cases[OF assms])
next
  case False
  then have long: "7 * m < 2 * int (length s)"
    using assms by (auto simp: estimate_le_iff)
  from False long estimate_truncated[OF assms long] show ?thesis
    by (simp add: truncateString_cases[OF assms])
qed

lemma compact_parsed_rounds:
  assumes "0 \<le> maxTokens options"
  shows "\<exists>i t. t = compact_at rt options (context_of rt options) parsed
                      (cap_after i (opt_maxArrayLength options))
          \<and> (\<forall>j<i. maxTokens options
                      < int (estimateJsonTokens
                               (compact_at rt options (context_of rt options) parsed
                                  (cap_after j (opt_maxArrayLength options))))
                    \<and> 5 < cap_after j (opt_maxArrayLength options))
          \<and> (int (estimateJsonTokens t) \<le> maxTokens options
              \<or> cap_after i (opt_maxArrayLength options) \<le> 5)
          \<and> compact_parsed rt options parsed
              = (if int (estimateJsonTokens t) \<le> maxTokens options then t
                 else take (nat ((7 * maxTokens options) div 2)) t @ truncation_marker)
          \<and> int (estimateJsonTokens (compact_parsed rt options parsed))
              = (if int (estimateJsonTokens t) \<le> maxTokens options
                 then int (estimateJsonTokens t) else maxTokens options + 4)"
proof -
  define ctx where "ctx = context_of rt options"
  define n where "n = opt_maxArrayLength options"
  from shrink_rounds[where rt = rt and options = options and ctx = ctx and parsed = parsed
                       and arrayLimit = n, OF refl]
  obtain i where before: "\<forall>j<i. maxTokens options
                    < int (estimateJsonTokens (compact_at rt options ctx parsed (cap_after j n)))
                 \<and> 5 < cap_after j n"
    and last: "int (estimateJsonTokens (compact_at rt options ctx parsed (cap_after i n)))
              \<le> maxTokens options
            \<or> cap_after i n \<le> 5"
    and sh: "shrink rt options ctx parsed (compact_at rt options ctx parsed n) n
            = compact_at rt options ctx parsed (cap_after i n)"
    by (elim exE conjE)
  define t where "t = compact_at rt options ctx parsed (cap_after i n)"
  have cp: "compact_parsed rt options parsed = hard_truncate options t"
    by (simp add: compact_parsed_def Let_def ctx_def[symmetric] n_def[symmetric] sh t_def)
  show ?thesis
    unfolding ctx_def[symmetric] n_def[symmetric]
    apply (rule exI[of _ i], rule exI[of _ t])
    apply (intro conjI)
        apply (rule t_def)
       apply (rule before)
      apply (unfold t_def, rule last)
     apply (fold t_def, unfold cp, rule final_safety[OF assms, THEN conjunct1])
    apply (rule final_safety[OF assms, THEN conjunct2])
    done
qed

text \<open>
  C3, as claimed: the estimated token count of the result is at most \<open>maxTokens\<close>. The
  final safety cuts the serialization to \<open>maxTokens * 3.5\<close> characters and then appends
  the marker of 14 characters: of the numbers 1 to 10 with a budget of 2 tokens and an
  array cap of 6, the loop ends at the cap 4 with a serialization of 3 tokens, and the
  result has 6.
\<close>

lemma bitlen_6: "bitlen 37830236869912164 = 56"
  by (simp add: bitlen.simps)

lemma mul07_floor_6: "mul07_floor 6 = 4"
  unfolding mul07_floor_def Let_def round_even_def by (simp add: bitlen_6)

lemma one_to_ten_at_6:
  "compact_at utc_runtime (capped 2 6) None one_to_ten 6 = ''[1,2,3,4,5,6]''"
  by code_simp

lemma one_to_ten_at_4:
  "compact_at utc_runtime (capped 2 6) None one_to_ten 4 = ''[1,2,3,4]''"
  by code_simp

lemma one_to_ten_estimates:
  "estimateJsonTokens ''[1,2,3,4,5,6]'' = 4" "estimateJsonTokens ''[1,2,3,4]'' = 3"
  by code_simp+

lemma capped_2_6:
  "maxTokens (capped 2 6) = 2" "opt_maxArrayLength (capped 2 6) = 6"
  "context_of utc_runtime (capped 2 6) = None"
  by (simp_all add: capped_def only_maxTokens_def opt_maxArrayLength_def context_of_def)

lemma one_to_ten_shrink:
  "shrink utc_runtime (capped 2 6) None one_to_ten ''[1,2,3,4,5,6]'' 6 = ''[1,2,3,4]''"
proof -
  have "shrink utc_runtime (capped 2 6) None one_to_ten ''[1,2,3,4,5,6]'' 6
          = shrink utc_runtime (capped 2 6) None one_to_ten ''[1,2,3,4]'' 4"
    by (subst shrink.simps)
       (simp add: one_to_ten_estimates capped_2_6 mul07_floor_6 one_to_ten_at_4 Let_def)
  also have "\<dots> = ''[1,2,3,4]''"
    by (subst shrink.simps) (simp add: one_to_ten_estimates capped_2_6)
  finally show ?thesis .
qed

lemma one_to_ten_cut: "hard_truncate (capped 2 6) ''[1,2,3,4]'' = ''[1,2,3,...[truncated]''"
  by code_simp

lemma one_to_ten_result:
  "compactJson utc_runtime one_to_ten (capped 2 6) = ''[1,2,3,...[truncated]''"
proof -
  have "compactJson utc_runtime one_to_ten (capped 2 6)
          = compact_parsed utc_runtime (capped 2 6) one_to_ten"
    by (simp add: compactJson_def one_to_ten_def)
  also have "\<dots> = ''[1,2,3,...[truncated]''"
    by (simp add: compact_parsed_def capped_2_6 one_to_ten_at_6 one_to_ten_shrink
                  one_to_ten_cut)
  finally show ?thesis .
qed

lemma one_to_ten_result_estimate: "estimateJsonTokens ''[1,2,3,...[truncated]'' = 6"
  by code_simp

theorem compactJson_over_budget:
  "compactJson utc_runtime one_to_ten (capped 2 6) = ''[1,2,3,...[truncated]''
   \<and> estimateJsonTokens (compactJson utc_runtime one_to_ten (capped 2 6)) = 6
   \<and> maxTokens (capped 2 6) = 2"
  unfolding one_to_ten_result
  by (intro conjI refl one_to_ten_result_estimate capped_2_6(1))

text \<open>
  C3, amended, for a budget that is not negative. \<open>compactJson\<close> returns the last
  serialization \<open>t\<close> when its estimated token count is at most \<open>maxTokens\<close>; otherwise it
  returns the first \<open>maxTokens * 3.5\<close> characters of \<open>t\<close> (rounded down) followed by
  \<open>...[truncated]\<close>, and the estimated token count of that result is \<open>maxTokens + 4\<close>. A
  string that does not parse is its own last serialization. For any other input the
  loop runs some number \<open>i\<close> of rounds, each from a serialization over the budget at a
  cap above 5 and each replacing the cap by \<open>Math.floor(cap * 0.7)\<close>; \<open>t\<close> is the
  serialization of passes 1 to 4 of the parsed input (not of an already shrunk one) at
  the cap after \<open>i\<close> rounds, and it fits the budget unless that cap is 5 or less.
\<close>

theorem compactJson_token_bound:
  assumes "0 \<le> maxTokens options"
  shows "\<exists>t. compactJson rt data options
               = (if int (estimateJsonTokens t) \<le> maxTokens options then t
                  else take (nat ((7 * maxTokens options) div 2)) t @ ''...[truncated]'')
           \<and> int (estimateJsonTokens (compactJson rt data options))
               = (if int (estimateJsonTokens t) \<le> maxTokens options
                  then int (estimateJsonTokens t) else maxTokens options + 4)
           \<and> ((\<exists>s. data = JStr s \<and> json_parse rt s = None \<and> t = s)
              \<or> (\<exists>parsed i.
                    (case data of JStr s \<Rightarrow> json_parse rt s = Some parsed | _ \<Rightarrow> parsed = data)
                    \<and> t = compact_at rt options (context_of rt options) parsed
                            (cap_after i (opt_maxArrayLength options))
                    \<and> (\<forall>j<i. maxTokens options
                                < int (estimateJsonTokens
                                         (compact_at rt options (context_of rt options) parsed
                                            (cap_after j (opt_maxArrayLength options))))
                              \<and> 5 < cap_after j (opt_maxArrayLength options))
                    \<and> (int (estimateJsonTokens t) \<le> maxTokens options
                        \<or> cap_after i (opt_maxArrayLength options) \<le> 5)))"
proof -
  have parsed_case:
    "\<exists>t. compact_parsed rt options parsed
               = (if int (estimateJsonTokens t) \<le> maxTokens options then t
                  else take (nat ((7 * maxTokens options) div 2)) t @ truncation_marker)
           \<and> int (estimateJsonTokens (compact_parsed rt options parsed))
               = (if int (estimateJsonTokens t) \<le> maxTokens options
                  then int (estimateJsonTokens t) else maxTokens options + 4)
           \<and> (\<exists>i. t = compact_at rt options (context_of rt options) parsed
                            (cap_after i (opt_maxArrayLength options))
                    \<and> (\<forall>j<i. maxTokens options
                                < int (estimateJsonTokens
                                         (compact_at rt options (context_of rt options) parsed
                                            (cap_after j (opt_maxArrayLength options))))
                              \<and> 5 < cap_after j (opt_maxArrayLength options))
                    \<and> (int (estimateJsonTokens t) \<le> maxTokens options
                        \<or> cap_after i (opt_maxArrayLength options) \<le> 5))" for parsed
  proof -
    from compact_parsed_rounds[OF assms, of rt parsed]
    obtain i t where "t = compact_at rt options (context_of rt options) parsed
                      (cap_after i (opt_maxArrayLength options))"
      and "\<forall>j<i. maxTokens options
                      < int (estimateJsonTokens
                               (compact_at rt options (context_of rt options) parsed
                                  (cap_after j (opt_maxArrayLength options))))
                    \<and> 5 < cap_after j (opt_maxArrayLength options)"
      and "int (estimateJsonTokens t) \<le> maxTokens options
              \<or> cap_after i (opt_maxArrayLength options) \<le> 5"
      and "compact_parsed rt options parsed
              = (if int (estimateJsonTokens t) \<le> maxTokens options then t
                 else take (nat ((7 * maxTokens options) div 2)) t @ truncation_marker)"
      and "int (estimateJsonTokens (compact_parsed rt options parsed))
              = (if int (estimateJsonTokens t) \<le> maxTokens options
                 then int (estimateJsonTokens t) else maxTokens options + 4)"
      by (elim exE conjE)
    then show ?thesis
      by (intro exI[of _ t] conjI exI[of _ i])
  qed
  have "\<exists>t. compactJson rt data options
               = (if int (estimateJsonTokens t) \<le> maxTokens options then t
                  else take (nat ((7 * maxTokens options) div 2)) t @ truncation_marker)
           \<and> int (estimateJsonTokens (compactJson rt data options))
               = (if int (estimateJsonTokens t) \<le> maxTokens options
                  then int (estimateJsonTokens t) else maxTokens options + 4)
           \<and> ((\<exists>s. data = JStr s \<and> json_parse rt s = None \<and> t = s)
              \<or> (\<exists>parsed i.
                    (case data of JStr s \<Rightarrow> json_parse rt s = Some parsed | _ \<Rightarrow> parsed = data)
                    \<and> t = compact_at rt options (context_of rt options) parsed
                            (cap_after i (opt_maxArrayLength options))
                    \<and> (\<forall>j<i. maxTokens options
                                < int (estimateJsonTokens
                                         (compact_at rt options (context_of rt options) parsed
                                            (cap_after j (opt_maxArrayLength options))))
                              \<and> 5 < cap_after j (opt_maxArrayLength options))
                    \<and> (int (estimateJsonTokens t) \<le> maxTokens options
                        \<or> cap_after i (opt_maxArrayLength options) \<le> 5)))"
  proof (cases "\<exists>s. data = JStr s \<and> json_parse rt s = None")
    case True
    then obtain s where d: "data = JStr s" and p: "json_parse rt s = None" by (elim exE conjE)
    have c: "compactJson rt data options = truncateString s (7 * maxTokens options)"
      using d p by (simp add: compactJson_def)
    show ?thesis
      unfolding c
      apply (rule exI[of _ s])
      apply (intro conjI)
        apply (rule truncateString_safety[OF assms, THEN conjunct1])
       apply (rule truncateString_safety[OF assms, THEN conjunct2])
      apply (rule disjI1)
      apply (rule exI[of _ s])
      apply (intro conjI d p refl)
      done
  next
    case False
    define parsed where "parsed = (case data of JStr s \<Rightarrow> the (json_parse rt s) | _ \<Rightarrow> data)"
    have pd: "(case data of JStr s \<Rightarrow> json_parse rt s = Some parsed | _ \<Rightarrow> parsed = data)"
      using False by (cases data) (auto simp: parsed_def)
    have c: "compactJson rt data options = compact_parsed rt options parsed"
      using False by (cases data) (auto simp: compactJson_def parsed_def)
    from parsed_case[of parsed] obtain t i where
      1: "compact_parsed rt options parsed
               = (if int (estimateJsonTokens t) \<le> maxTokens options then t
                  else take (nat ((7 * maxTokens options) div 2)) t @ truncation_marker)"
      and 2: "int (estimateJsonTokens (compact_parsed rt options parsed))
               = (if int (estimateJsonTokens t) \<le> maxTokens options
                  then int (estimateJsonTokens t) else maxTokens options + 4)"
      and 3: "t = compact_at rt options (context_of rt options) parsed
                            (cap_after i (opt_maxArrayLength options))"
      and 4: "\<forall>j<i. maxTokens options
                                < int (estimateJsonTokens
                                         (compact_at rt options (context_of rt options) parsed
                                            (cap_after j (opt_maxArrayLength options))))
                              \<and> 5 < cap_after j (opt_maxArrayLength options)"
      and 5: "int (estimateJsonTokens t) \<le> maxTokens options
                        \<or> cap_after i (opt_maxArrayLength options) \<le> 5"
      by (elim exE conjE)
    show ?thesis
      unfolding c
      apply (rule exI[of _ t])
      apply (intro conjI)
        apply (rule 1)
       apply (rule 2)
      apply (rule disjI2)
      apply (rule exI[of _ parsed], rule exI[of _ i])
      apply (intro conjI)
         apply (rule pd)
        apply (rule 3)
       apply (rule 4)
      apply (rule 5)
      done
  qed
  then show ?thesis unfolding truncation_marker_def .
qed

lemma fits_budget:
  "compactJson utc_runtime (JStr ''[1, 2, 3]'') (only_maxTokens 1000) = ''[1,2,3]''"
  by code_simp

theorem compactJson_token_bound_witness:
  "compactJson utc_runtime (JStr ''[1, 2, 3]'') (only_maxTokens 1000) = ''[1,2,3]''
   \<and> int (estimateJsonTokens (compactJson utc_runtime (JStr ''[1, 2, 3]'') (only_maxTokens 1000)))
       \<le> 1000
   \<and> int (estimateJsonTokens (compactJson utc_runtime one_to_ten (capped 2 6))) = 2 + 4"
proof -
  have m: "maxTokens (only_maxTokens 1000) = 1000" by (simp add: only_maxTokens_def)
  from compactJson_token_bound[of "only_maxTokens 1000" utc_runtime "JStr ''[1, 2, 3]''"]
  obtain t where
    "int (estimateJsonTokens (compactJson utc_runtime (JStr ''[1, 2, 3]'') (only_maxTokens 1000)))
       = (if int (estimateJsonTokens t) \<le> 1000 then int (estimateJsonTokens t) else 1000 + 4)"
    unfolding m by auto
  moreover have "estimateJsonTokens ''[1,2,3]'' = 2" by code_simp
  ultimately have a: "int (estimateJsonTokens
                       (compactJson utc_runtime (JStr ''[1, 2, 3]'') (only_maxTokens 1000)))
                     \<le> 1000"
    unfolding fits_budget by simp
  from compactJson_token_bound[of "capped 2 6" utc_runtime one_to_ten]
  obtain u where
    "int (estimateJsonTokens (compactJson utc_runtime one_to_ten (capped 2 6)))
       = (if int (estimateJsonTokens u) \<le> 2 then int (estimateJsonTokens u) else 2 + 4)"
    unfolding capped_2_6 by auto
  moreover have "estimateJsonTokens (compactJson utc_runtime one_to_ten (capped 2 6)) = 6"
    unfolding one_to_ten_result by (rule one_to_ten_result_estimate)
  ultimately have b: "int (estimateJsonTokens (compactJson utc_runtime one_to_ten (capped 2 6)))
                        = 2 + 4"
    by simp
  from fits_budget a b show ?thesis by (intro conjI)
qed

subsection \<open>The order of the dates\<close>

lemma prices_newest_first:
  "truncateArrays utc_runtime 3
     (JArr (map priced [''2026-01-20'', ''2026-01-19'', ''2026-01-18'', ''2026-01-17'',
                        ''2026-01-16'', ''2026-01-15'']))
     = JArr (map priced [''2026-01-20'', ''2026-01-19'', ''2026-01-18''])"
  by code_simp

lemma prices_oldest_first:
  "truncateArrays utc_runtime 3
     (JArr (map priced [''2026-01-15'', ''2026-01-16'', ''2026-01-17'', ''2026-01-18'',
                        ''2026-01-19'', ''2026-01-20'']))
     = JArr (map priced [''2026-01-18'', ''2026-01-19'', ''2026-01-20''])"
  by code_simp

lemma tied_dates_oldest_first: "detectDateOrdering utc_runtime tied_prices = OldestFirst"
  by code_simp

text \<open>
  C4. The claim: of an array over the limit the first \<open>N\<close> elements are kept unless the
  dates of the first two elements are strictly increasing. \<open>detectDateOrdering\<close> tests
  \<open>d1 > d2\<close> only, so two equal dates count as oldest first and the last \<open>N\<close> elements
  are kept: of six prices, newest first, the two newest of one day, the three oldest
  remain.
\<close>

theorem tied_dates_keep_last:
  "truncateArrays utc_runtime 3 (JArr tied_prices)
       = JArr (map priced [''2026-01-18'', ''2026-01-17'', ''2026-01-16''])
   \<and> compactJson utc_runtime (JObj [(''prices'', JArr tied_prices)]) (capped 1000 3)
       = stringify (JObj [(''prices'',
                           JArr (map priced [''2026-01-18'', ''2026-01-17'', ''2026-01-16'']))])"
  by code_simp

subsection \<open>The analysis of a query\<close>

text \<open>
  C7. For the query \<open>What was AAPL's return over the past 2 years?\<close> the analyzer
  returns the ticker \<open>AAPL\<close> alone, one date range, from the current instant with its
  year set two years back to the current instant, the calculation keyword \<open>return\<close>,
  and \<open>requiresFullData\<close>; no year, and the periods \<open>past 2 years\<close> and \<open>2 year\<close>. When
  the current instant is 2026-01-21T00:00:00Z the range starts at 2024-01-21T00:00:00Z.
\<close>

lemma aapl_analysis:
  "analyzeQuery rt aapl_query
     = \<lparr>years = [],
        dateRanges = [\<lparr>range_start = with_year rt (now rt) (year_of rt (now rt) - 2),
                       range_end = Time (now rt)\<rparr>],
        timePeriods = [''past 2 years'', ''2 year''],
        tickers = [''AAPL''],
        requiresFullData = True,
        calculationKeywords = [''return'']\<rparr>"
  by code_simp

lemma two_years_back:
  "with_year utc_runtime (now utc_runtime) (year_of utc_runtime (now utc_runtime) - 2)
     = Time 1705795200000"
  "now utc_runtime = 1768953600000"
  "with_year utc_runtime 1768953600000 (year_of utc_runtime 1768953600000 - 2)
     = Time 1705795200000"
  by code_simp+

theorem analyzeQuery_aapl:
  "analyzeQuery rt aapl_query
     = \<lparr>years = [],
        dateRanges = [\<lparr>range_start = with_year rt (now rt) (year_of rt (now rt) - 2),
                       range_end = Time (now rt)\<rparr>],
        timePeriods = [''past 2 years'', ''2 year''],
        tickers = [''AAPL''],
        requiresFullData = True,
        calculationKeywords = [''return'']\<rparr>
   \<and> dateRanges (analyzeQuery utc_runtime aapl_query)
       = [\<lparr>range_start = Time 1705795200000, range_end = Time 1768953600000\<rparr>]"
  unfolding aapl_analysis by (simp add: two_years_back)

end
